theory Spec2Isabelle
  imports Complex_Main "HOL-Library.Product_Lexorder" "HOL-Library.List_Lexorder"
    "HOL-Library.Char_ord"
begin

section \<open>The command line driver: \<^verbatim>\<open>src/tirmite/cmd_tirmite.py\<close>\<close>

text \<open>
  The driver \<^verbatim>\<open>main\<close> reads the parsed arguments, asks the operating system a few
  questions (which tools are on the PATH, which result files exist) and calls the
  functions of the \<^verbatim>\<open>tirmite\<close> package in a fixed order. The model keeps the
  arguments as a record, the answers of the outside world as a second record, and
  returns the sequence of calls and prints that \<^verbatim>\<open>main\<close> performs together with
  the way the process ends. Every call of the package is taken to return; the two
  evaluations of \<^verbatim>\<open>glob.glob\<close> at lines 106 and 112 see the same files. Floating
  point numbers (\<^verbatim>\<open>--maxeval\<close>) are only passed on and compared, so they are
  modelled as rationals.
\<close>

datatype report_mode = ReportAll | ReportPaired | ReportUnpaired

text \<open>The namespace returned by \<^verbatim>\<open>mainArgs\<close> (lines 8-50), one field per option.\<close>

record args =
  genome :: string
  hmmDir :: "string option"
  hmmFile :: "string option"
  alnDir :: "string option"
  alnFile :: "string option"
  alnFormat :: string
  useBowtie2 :: bool
  btTIR :: "string option"
  bowtie2 :: string
  bt2build :: string
  samtools :: string
  bedtools :: string
  stableReps :: int
  outdir :: "string option"
  prefix :: "string option"
  nopairing :: bool
  gffOut :: "string option"
  reportTIR :: "report_mode option"
  keeptemp :: bool
  verbose :: bool
  cores :: int
  maxeval :: rat
  maxdist :: "int option"
  nobias :: bool
  matrix :: "string option"
  hmmpress :: string
  nhmmer :: string
  hmmbuild :: string

text \<open>The defaults of \<^verbatim>\<open>mainArgs\<close>; \<^verbatim>\<open>--genome\<close> is required and given here.\<close>

definition default_args :: args where
  "default_args =
     \<lparr> genome = ''genome.fa'', hmmDir = None, hmmFile = None, alnDir = None, alnFile = None,
       alnFormat = ''fasta'', useBowtie2 = False, btTIR = None, bowtie2 = ''bowtie2'',
       bt2build = ''bowtie2-build'', samtools = ''samtools'', bedtools = ''bedtools'',
       stableReps = 0, outdir = None, prefix = None, nopairing = False, gffOut = None,
       reportTIR = Some ReportAll, keeptemp = False, verbose = False, cores = 1,
       maxeval = 1 / 1000, maxdist = None, nobias = False, matrix = None,
       hmmpress = ''hmmpress'', nhmmer = ''nhmmer'', hmmbuild = ''hmmbuild'' \<rparr>"

text \<open>
  What the outside world answers during one run: \<^verbatim>\<open>shutil.which\<close>, the two
  directories returned by \<^verbatim>\<open>tirmite.dochecks\<close>, the result directory returned by
  \<^verbatim>\<open>tirmite.cmdScript\<close>, the path returned by \<^verbatim>\<open>tirmite._bam2bed_cmd\<close>, and the
  files matched by \<^verbatim>\<open>glob.glob(resultDir/*.tab)\<close>.
\<close>

record world =
  which :: "string \<Rightarrow> string option"
  outDir :: string
  tempDir :: string
  resultDir :: string
  mappedPath :: string
  tab_files :: "string list"

text \<open>One constructor per call that \<^verbatim>\<open>main\<close> makes, with the arguments it passes.\<close>

datatype event =
    Print string
  | Dochecks args
  | ImportFasta string
  | Isfile "string option"
  | GetbtName "string option"
  | Bowtie2buildCmd string string
  | Bowtie2Cmd string "string option" int
  | Bam2bedCmd string string string
  | RunCmd bool bool
  | ImportMapped string "string option"
  | ConvertAlign "string option" "string option" string string
  | CmdScript "string option" "string option" bool string args
  | ImportNhmmer string "string option"
  | Table2dict
  | WriteTIRs string rat "string option"
  | Rmtree string
  | ParseHits "int option"
  | IterateGetPairs int
  | FetchElements
  | WriteElements string "string option"
  | FetchUnpaired
  | GffWrite string string "report_mode option" bool bool "string option"

text \<open>How the process ends: \<^verbatim>\<open>sys.exit(n)\<close>, or \<^verbatim>\<open>main\<close> returns (exit status 0).\<close>

datatype outcome = SysExit int | Finished

fun exit_status :: "outcome \<Rightarrow> int" where
  "exit_status (SysExit n) = n"
| "exit_status Finished = 0"

text \<open>Python's truth value of an optional string: \<^verbatim>\<open>None\<close> and \<^verbatim>\<open>''\<close> are false.\<close>

fun truthy :: "string option \<Rightarrow> bool" where
  "truthy None = False"
| "truthy (Some s) = (s \<noteq> [])"

text \<open>\<^verbatim>\<open>sep.join(xs)\<close>\<close>

fun join_str :: "string \<Rightarrow> string list \<Rightarrow> string" where
  "join_str sep [] = []"
| "join_str sep [x] = x"
| "join_str sep (x # y # ys) = x @ sep @ join_str sep (y # ys)"

text \<open>Lines 52-57.\<close>

definition missing_tool :: "world \<Rightarrow> string \<Rightarrow> string list" where
  "missing_tool w tool_name =
     (case which w tool_name of None \<Rightarrow> [tool_name] | Some path \<Rightarrow> [])"

text \<open>Line 65.\<close>

definition tools :: "args \<Rightarrow> string list" where
  "tools a = [hmmpress a, nhmmer a, hmmbuild a, bowtie2 a, bt2build a, samtools a, bedtools a]"

text \<open>Lines 66-68: the loop appends the result of \<^verbatim>\<open>missing_tool\<close> for each tool in turn.\<close>

definition missing_tools :: "args \<Rightarrow> world \<Rightarrow> string list" where
  "missing_tools a w = concat (map (missing_tool w) (tools a))"

text \<open>Lines 69-72.\<close>

definition check_tools :: "args \<Rightarrow> world \<Rightarrow> event list" where
  "check_tools a w =
     (if missing_tools a w \<noteq> []
      then [Print (''WARNING: Some tools required by tirmite could not be found: ''
                    @ join_str '', '' (missing_tools a w)),
            Print ''You may need to install them to use all features.'']
      else [])"

text \<open>
  Lines 80-113: the search step. The second component is \<^verbatim>\<open>Some\<close> exit status when
  the step leaves the program (line 108) and \<^verbatim>\<open>None\<close> when the run goes on.
\<close>

definition search_hits :: "args \<Rightarrow> world \<Rightarrow> event list \<times> int option" where
  "search_hits a w =
     (if useBowtie2 a then
        ([Isfile (btTIR a), GetbtName (btTIR a),
          Bowtie2buildCmd (bt2build a) (genome a),
          Bowtie2Cmd (bowtie2 a) (btTIR a) (cores a),
          Bam2bedCmd (samtools a) (bedtools a) (tempDir w),
          RunCmd (verbose a) (keeptemp a),
          ImportMapped (mappedPath w) (prefix a)], None)
      else
        (let convert =
               (if truthy (alnDir a) \<or> truthy (alnFile a)
                then [ConvertAlign (alnDir a) (alnFile a) (alnFormat a) (tempDir w)] else []);
             run = convert @
               [CmdScript (hmmDir a) (hmmFile a) (truthy (alnDir a) \<or> truthy (alnFile a)) (tempDir w) a,
                RunCmd (verbose a) (keeptemp a)]
         in if tab_files w = []
            then (run @ [Print (''No hits found in '' @ resultDir w @ '' . Quitting.'')], Some 1)
            else (run @ map (\<lambda>resultfile. ImportNhmmer resultfile (prefix a)) (tab_files w), None)))"

text \<open>Lines 152-154 (and 121-123).\<close>

definition remove_temp :: "args \<Rightarrow> world \<Rightarrow> event list" where
  "remove_temp a w = (if \<not> keeptemp a then [Rmtree (tempDir w)] else [])"

text \<open>Lines 141-150.\<close>

definition write_gff :: "args \<Rightarrow> world \<Rightarrow> event list" where
  "write_gff a w =
     (case gffOut a of
        None \<Rightarrow> []
      | Some gff \<Rightarrow>
          if gff \<noteq> [] then
            (if reportTIR a = Some ReportAll \<or> reportTIR a = Some ReportUnpaired
             then [FetchUnpaired] else [])
            @ [GffWrite (outDir w) gff (reportTIR a)
                 (reportTIR a = Some ReportAll \<or> reportTIR a = Some ReportUnpaired)
                 (useBowtie2 a) (prefix a)]
          else [])"

text \<open>Lines 115-154: everything after the hits have been imported.\<close>

definition report_hits :: "args \<Rightarrow> world \<Rightarrow> event list \<times> outcome" where
  "report_hits a w =
     (if nopairing a then
        ([Table2dict, WriteTIRs (outDir w) (maxeval a) None] @ remove_temp a w, SysExit 1)
      else
        ([Table2dict,
          ParseHits (maxdist a),
          IterateGetPairs (stableReps a),
          WriteTIRs (outDir w) (maxeval a) (prefix a),
          FetchElements,
          WriteElements (outDir w) (prefix a)]
         @ write_gff a w @ remove_temp a w, Finished))"

text \<open>Lines 59-154.\<close>

definition main :: "args \<Rightarrow> world \<Rightarrow> event list \<times> outcome" where
  "main a w =
     (let start = check_tools a w @ [Dochecks a, ImportFasta (genome a)];
          (found, left) = search_hits a w
      in case left of
           Some n \<Rightarrow> (start @ found, SysExit n)
         | None \<Rightarrow> (let (rest, out) = report_hits a w in (start @ found @ rest, out)))"

text \<open>Classifications of events used in the statements below.\<close>

fun is_print :: "event \<Rightarrow> bool" where
  "is_print (Print s) = True"
| "is_print e = False"

fun is_rmtree :: "event \<Rightarrow> bool" where
  "is_rmtree (Rmtree d) = True"
| "is_rmtree e = False"

fun is_write_tirs :: "event \<Rightarrow> bool" where
  "is_write_tirs (WriteTIRs d m p) = True"
| "is_write_tirs e = False"

text \<open>The pairing, element extraction and GFF writing steps (lines 126-150).\<close>

fun is_pairing_step :: "event \<Rightarrow> bool" where
  "is_pairing_step (ParseHits d) = True"
| "is_pairing_step (IterateGetPairs r) = True"
| "is_pairing_step FetchElements = True"
| "is_pairing_step (WriteElements d p) = True"
| "is_pairing_step FetchUnpaired = True"
| "is_pairing_step (GffWrite d f r u s p) = True"
| "is_pairing_step e = False"

text \<open>
  The calls of lines 127-136 between the import of the hits and the writing of the
  elements: candidate search, pairing, the writer that receives the threshold, and the
  derivation of the elements.
\<close>

fun is_engine_step :: "event \<Rightarrow> bool" where
  "is_engine_step (ParseHits d) = True"
| "is_engine_step (IterateGetPairs r) = True"
| "is_engine_step (WriteTIRs d m p) = True"
| "is_engine_step FetchElements = True"
| "is_engine_step e = False"

text \<open>The prefix an output writing call receives, if the call writes output.\<close>

fun output_prefix :: "event \<Rightarrow> string option option" where
  "output_prefix (WriteTIRs d m p) = Some p"
| "output_prefix (WriteElements d p) = Some p"
| "output_prefix (GffWrite d f r u s p) = Some p"
| "output_prefix e = None"

text \<open>A world in which every tool is found where it is named.\<close>

definition all_found :: "world \<Rightarrow> world" where
  "all_found w = w\<lparr>which := (\<lambda>t. Some t)\<rparr>"

text \<open>A concrete world: no tool installed, one result file.\<close>

definition bare_world :: world where
  "bare_world =
     \<lparr> which = (\<lambda>t. None), outDir = ''out'', tempDir = ''out/temp'',
       resultDir = ''out/temp/nhmmer_results'', mappedPath = ''out/temp/mapped.bed'',
       tab_files = [''out/temp/nhmmer_results/TIR.tab''] \<rparr>"

text \<open>The same world when the search step has produced no result file.\<close>

definition no_hits_world :: world where
  "no_hits_world = bare_world\<lparr>tab_files := []\<rparr>"

text \<open>The prefixes received by the output writing calls of a run, in order.\<close>

definition output_prefixes :: "event list \<Rightarrow> string option list" where
  "output_prefixes tr = List.map_filter output_prefix tr"


section \<open>The hit index and the pairing engine\<close>

text \<open>
  The functions \<^verbatim>\<open>tirmite.table2dict\<close>, \<^verbatim>\<open>tirmite.parseHits\<close>,
  \<^verbatim>\<open>tirmite.iterateGetPairs\<close> and \<^verbatim>\<open>tirmite.fetchElements\<close> that \<^verbatim>\<open>main\<close>
  calls at lines 116-136 belong to the package but not to the source file at hand. The
  definitions of this section follow sections 3 and 4 of the specification instead.
  E-values are only compared, so they are rationals here.
\<close>

text \<open>Modelled from the spec: the HitRecord of section 3 (the package's hit table rows).\<close>

datatype strand = Plus | Minus

datatype hit_source = ProfileScan | ShortReadMap

record hit_record =
  model :: string
  chromosome :: string
  start :: int
  end_pos :: int
  strand :: strand
  evalue :: rat
  source :: hit_source

text \<open>
  Modelled from the spec: the HitIndex of section 3 (the package's \<^verbatim>\<open>hitIndex\<close>). The
  index is the sequence of hits in input order; the id of a hit is its position in the
  sequence, and each entry carries the mutable pairing state of its hit. The group of an
  entry is its (model, chromosome).
\<close>

datatype pairing_status = Unpaired | Paired

record index_entry =
  hit :: hit_record
  candidates :: "nat list"
  partner :: "nat option"
  status :: pairing_status

type_synonym hit_index = "index_entry list"

definition group_of :: "index_entry \<Rightarrow> string \<times> string" where
  "group_of e = (model (hit e), chromosome (hit e))"

text \<open>
  Modelled from the spec: the HitIndexBuilder of section 4.1 (\<^verbatim>\<open>tirmite.table2dict\<close>).
  A record with \<^verbatim>\<open>start >= end\<close> is rejected with the position of the first such
  record; the strand is recognized by its type.
\<close>

datatype engine_error = MalformedHitError nat

definition well_formed :: "hit_record \<Rightarrow> bool" where
  "well_formed h = (start h < end_pos h)"

definition build_index :: "hit_record list \<Rightarrow> engine_error + hit_index" where
  "build_index hs =
     (case find (\<lambda>i. \<not> well_formed (hs ! i)) [0..<length hs] of
        Some i \<Rightarrow> Inl (MalformedHitError i)
      | None \<Rightarrow> Inr (map (\<lambda>h. \<lparr>hit = h, candidates = [], partner = None, status = Unpaired\<rparr>) hs))"

text \<open>
  Modelled from the spec: the CandidateFinder of section 4.2 (\<^verbatim>\<open>tirmite.parseHits\<close>).
  The gap is the distance between the nearer edges of two hits; an unset
  \<^verbatim>\<open>maxDist\<close> accepts every gap.
\<close>

definition gap :: "hit_record \<Rightarrow> hit_record \<Rightarrow> int" where
  "gap h h' = max 0 (max (start h) (start h') - min (end_pos h) (end_pos h'))"

definition in_reach :: "int option \<Rightarrow> int \<Rightarrow> bool" where
  "in_reach maxDist d = (case maxDist of None \<Rightarrow> True | Some m \<Rightarrow> d \<le> m)"

definition is_candidate :: "int option \<Rightarrow> hit_index \<Rightarrow> nat \<Rightarrow> nat \<Rightarrow> bool" where
  "is_candidate maxDist idx i j =
     (group_of (idx ! i) = group_of (idx ! j)
      \<and> strand (hit (idx ! i)) \<noteq> strand (hit (idx ! j))
      \<and> in_reach maxDist (gap (hit (idx ! i)) (hit (idx ! j)))
      \<and> i \<noteq> j)"

definition find_candidates :: "int option \<Rightarrow> hit_index \<Rightarrow> hit_index" where
  "find_candidates maxDist idx =
     map (\<lambda>i. (idx ! i)\<lparr>candidates := filter (is_candidate maxDist idx i) [0..<length idx]\<rparr>)
       [0..<length idx]"

text \<open>
  Modelled from the spec: step 1 of the PairingEngine of section 4.3
  (\<^verbatim>\<open>tirmite.iterateGetPairs\<close>). The remaining candidates of a hit are its candidates
  that are still unpaired. The best remaining candidate is the first in the order
  (a) lower e-value, (b) smaller gap, (c) lower id.
\<close>

definition remaining :: "hit_index \<Rightarrow> nat \<Rightarrow> nat list" where
  "remaining idx i =
     filter (\<lambda>c. c < length idx \<and> status (idx ! c) = Unpaired) (candidates (idx ! i))"

definition rank_key :: "hit_index \<Rightarrow> nat \<Rightarrow> nat \<Rightarrow> rat \<times> int \<times> nat" where
  "rank_key idx i c = (evalue (hit (idx ! c)), gap (hit (idx ! i)) (hit (idx ! c)), c)"

definition best :: "hit_index \<Rightarrow> nat \<Rightarrow> nat option" where
  "best idx i =
     (case remaining idx i of
        [] \<Rightarrow> None
      | c # cs \<Rightarrow> Some (arg_min_list (rank_key idx i) (c # cs)))"

text \<open>
  Modelled from the spec: the ranking of step 1 in the words of the specification, as a
  relation. \<open>outranks idx i c c'\<close> says that for hit \<open>i\<close> candidate \<open>c\<close> comes before
  candidate \<open>c'\<close>; a best remaining candidate comes before every other one.
\<close>

definition outranks :: "hit_index \<Rightarrow> nat \<Rightarrow> nat \<Rightarrow> nat \<Rightarrow> bool" where
  "outranks idx i c c' =
     (evalue (hit (idx ! c)) < evalue (hit (idx ! c'))
      \<or> (evalue (hit (idx ! c)) = evalue (hit (idx ! c'))
          \<and> (gap (hit (idx ! i)) (hit (idx ! c)) < gap (hit (idx ! i)) (hit (idx ! c'))
              \<or> (gap (hit (idx ! i)) (hit (idx ! c)) = gap (hit (idx ! i)) (hit (idx ! c'))
                  \<and> c < c'))))"

definition is_best :: "hit_index \<Rightarrow> nat \<Rightarrow> nat \<Rightarrow> bool" where
  "is_best idx i c =
     (c \<in> set (remaining idx i)
      \<and> (\<forall>c' \<in> set (remaining idx i). c' \<noteq> c \<longrightarrow> outranks idx i c c'))"

text \<open>
  Modelled from the spec: any procedure that determines the best remaining candidate
  of a hit as step 1 of section 4.3 demands. The engine below takes the procedure as a
  parameter; the engine of the specification uses \<open>best\<close>. A procedure ranks by the
  specification when it returns exactly the best remaining candidate.
\<close>

type_synonym chooser = "hit_index \<Rightarrow> nat \<Rightarrow> nat option"

definition ranks_by_spec :: "chooser \<Rightarrow> bool" where
  "ranks_by_spec pick = (\<forall>idx i c. pick idx i = Some c \<longleftrightarrow> is_best idx i c)"

text \<open>
  Modelled from the spec: the Pair of section 3. The five prime member is the hit that
  starts first on the plus strand (the lower id when both start together); the span
  runs from the smaller start to the larger end.
\<close>

record pair =
  five_prime :: nat
  three_prime :: nat
  span_start :: int
  span_end :: int

definition upstream :: "hit_index \<Rightarrow> nat \<Rightarrow> nat \<Rightarrow> bool" where
  "upstream idx a b =
     (start (hit (idx ! a)) < start (hit (idx ! b))
      \<or> (start (hit (idx ! a)) = start (hit (idx ! b)) \<and> a \<le> b))"

definition mk_pair :: "hit_index \<Rightarrow> nat \<Rightarrow> nat \<Rightarrow> pair" where
  "mk_pair idx a b =
     \<lparr> five_prime = (if upstream idx a b then a else b),
       three_prime = (if upstream idx a b then b else a),
       span_start = min (start (hit (idx ! a))) (start (hit (idx ! b))),
       span_end = max (end_pos (hit (idx ! a))) (end_pos (hit (idx ! b))) \<rparr>"

definition members :: "pair \<Rightarrow> nat set" where
  "members p = {five_prime p, three_prime p}"

text \<open>
  Modelled from the spec: step 2 of section 4.3. The pairs of one round in a group are
  the pairs of unpaired hits of the group each of which is the other's best remaining
  candidate; each pair is listed once, from its member with the lower id.
\<close>

definition round_pairs :: "chooser \<Rightarrow> string \<times> string \<Rightarrow> hit_index \<Rightarrow> pair list" where
  "round_pairs pick g idx =
     [mk_pair idx a b.
        a \<leftarrow> [0..<length idx], group_of (idx ! a) = g \<and> status (idx ! a) = Unpaired,
        b \<leftarrow> remaining idx a, pick idx a = Some b \<and> pick idx b = Some a \<and> a < b]"

text \<open>
  Modelled from the spec: step 3 of section 4.3. All pairs of a round are committed at
  once: both members become paired with each other as partner, and the pairs are added
  to the paired set. A paired hit is no remaining candidate of any hit (see
  \<open>remaining\<close>).
\<close>

definition partner_in :: "pair list \<Rightarrow> nat \<Rightarrow> nat option" where
  "partner_in np i =
     (case find (\<lambda>p. five_prime p = i \<or> three_prime p = i) np of
        None \<Rightarrow> None
      | Some p \<Rightarrow> Some (if five_prime p = i then three_prime p else five_prime p))"

record engine_state =
  index :: hit_index
  pairs :: "pair list"

definition commit :: "pair list \<Rightarrow> engine_state \<Rightarrow> engine_state" where
  "commit np st =
     \<lparr> index = map (\<lambda>i. case partner_in np i of
                           None \<Rightarrow> index st ! i
                         | Some j \<Rightarrow> (index st ! i)\<lparr>partner := Some j, status := Paired\<rparr>)
                 [0..<length (index st)],
       pairs = pairs st @ np \<rparr>"

text \<open>
  Modelled from the spec: the unpaired hits of a group that still have a remaining
  candidate (steps 5 and 6 of section 4.3), and the ids of all unpaired hits.
\<close>

definition active :: "string \<times> string \<Rightarrow> hit_index \<Rightarrow> nat list" where
  "active g idx =
     filter (\<lambda>i. group_of (idx ! i) = g \<and> status (idx ! i) = Unpaired \<and> remaining idx i \<noteq> [])
       [0..<length idx]"

definition unpaired_ids :: "hit_index \<Rightarrow> nat list" where
  "unpaired_ids idx = filter (\<lambda>i. status (idx ! i) = Unpaired) [0..<length idx]"

text \<open>Facts about one round, needed for the termination of the loop.\<close>

lemma length_commit [simp]: "length (index (commit np st)) = length (index st)"
  by (simp add: commit_def)

lemma partner_in_Some:
  "partner_in np i \<noteq> None \<longleftrightarrow> (\<exists>p \<in> set np. i \<in> members p)"
  unfolding partner_in_def members_def
  using find_None_iff [of "\<lambda>p. five_prime p = i \<or> three_prime p = i" np]
  by (auto split: option.splits)

lemma status_commit:
  "i < length (index st) \<Longrightarrow>
   status (index (commit np st) ! i) =
     (if \<exists>p \<in> set np. i \<in> members p then Paired else status (index st ! i))"
  using partner_in_Some [of np i]
  by (auto simp: commit_def split: option.splits)

lemma round_pairs_sound:
  "p \<in> set (round_pairs pick g idx) \<Longrightarrow>
   \<exists>a b. p = mk_pair idx a b \<and> a < length idx \<and> b < length idx \<and> a < b
        \<and> group_of (idx ! a) = g
        \<and> status (idx ! a) = Unpaired \<and> status (idx ! b) = Unpaired
        \<and> b \<in> set (candidates (idx ! a))
        \<and> pick idx a = Some b \<and> pick idx b = Some a"
  by (fastforce simp: round_pairs_def remaining_def)

lemma members_mk_pair [simp]: "members (mk_pair idx a b) = {a, b}"
  by (auto simp: members_def mk_pair_def)

lemma unpaired_ids_commit:
  "set (unpaired_ids (index (commit np st))) =
     set (unpaired_ids (index st)) - (\<Union>p \<in> set np. members p)"
  by (auto simp: unpaired_ids_def status_commit split: if_splits)

lemma round_decreases:
  assumes "round_pairs pick g (index st) \<noteq> []"
  shows "length (unpaired_ids (index (commit (round_pairs pick g (index st)) st)))
           < length (unpaired_ids (index st))"
proof -
  let ?np = "round_pairs pick g (index st)"
  from assms obtain p where p: "p \<in> set ?np" by (cases ?np) auto
  from round_pairs_sound [OF p] obtain a b where
    ab: "p = mk_pair (index st) a b" "a < length (index st)" "status (index st ! a) = Unpaired"
    by blast
  have d: "distinct (unpaired_ids idx)" for idx by (simp add: unpaired_ids_def)
  have a_in: "a \<in> set (unpaired_ids (index st))" using ab by (simp add: unpaired_ids_def)
  have a_out: "a \<notin> set (unpaired_ids (index (commit ?np st)))"
    using p ab(1) by (auto simp: unpaired_ids_commit intro!: bexI [of _ p])
  have "set (unpaired_ids (index (commit ?np st))) \<subset> set (unpaired_ids (index st))"
    using a_in a_out by (auto simp: unpaired_ids_commit)
  then have "card (set (unpaired_ids (index (commit ?np st)))) < card (set (unpaired_ids (index st)))"
    by (intro psubset_card_mono) simp_all
  then show ?thesis by (simp add: distinct_card d)
qed

text \<open>
  Modelled from the spec: steps 4 to 6 of section 4.3, the loop over rounds for one
  group. \<open>k\<close> counts the unproductive rounds since the last productive one. The loop
  ends when no unpaired hit of the group has a remaining candidate, or when the
  unproductive round just made is number \<open>stableReps + 1\<close> in a row. Every productive
  round pairs at least two unpaired hits, so the loop terminates.
\<close>

function pair_loop :: "chooser \<Rightarrow> string \<times> string \<Rightarrow> nat \<Rightarrow> nat \<Rightarrow> engine_state \<Rightarrow> engine_state" where
  "pair_loop pick g reps k st =
     (if active g (index st) = [] then st
      else let np = round_pairs pick g (index st) in
        if np = [] then (if reps \<le> k then st else pair_loop pick g reps (Suc k) st)
        else pair_loop pick g reps 0 (commit np st))"
  by pat_completeness auto
termination
  by (relation "measures [\<lambda>(pick, g, reps, k, st). length (unpaired_ids (index st)),
                          \<lambda>(pick, g, reps, k, st). reps - k]")
     (auto simp: round_decreases)

declare pair_loop.simps [simp del]

text \<open>
  Modelled from the spec: the PairingEngine as a whole. The groups are resolved one
  after the other, in the order of their first hit; the engine returns the index, the
  paired set and the ids of the unpaired hits, as \<^verbatim>\<open>tirmite.iterateGetPairs\<close> does
  at line 130.
\<close>

definition group_keys :: "hit_index \<Rightarrow> (string \<times> string) list" where
  "group_keys idx = remdups (map group_of idx)"

definition resolve_groups ::
  "chooser \<Rightarrow> nat \<Rightarrow> (string \<times> string) list \<Rightarrow> engine_state \<Rightarrow> engine_state" where
  "resolve_groups pick reps gs st = fold (\<lambda>g st. pair_loop pick g reps 0 st) gs st"

definition pairing_engine_with ::
  "chooser \<Rightarrow> hit_index \<Rightarrow> nat \<Rightarrow> hit_index \<times> pair list \<times> nat list" where
  "pairing_engine_with pick idx reps =
     (let st = resolve_groups pick reps (group_keys idx) \<lparr>index = idx, pairs = []\<rparr>
      in (index st, pairs st, unpaired_ids (index st)))"

definition pairing_engine :: "hit_index \<Rightarrow> nat \<Rightarrow> hit_index \<times> pair list \<times> nat list" where
  "pairing_engine idx reps = pairing_engine_with best idx reps"

text \<open>
  Modelled from the spec: the control flow of section 2 from the hit list to the
  paired and unpaired sets: HitIndexBuilder, CandidateFinder, PairingEngine.
\<close>

definition run_engine_with ::
  "chooser \<Rightarrow> int option \<Rightarrow> nat \<Rightarrow> hit_record list
     \<Rightarrow> engine_error + hit_index \<times> pair list \<times> nat list" where
  "run_engine_with pick maxDist reps hs =
     (case build_index hs of
        Inl e \<Rightarrow> Inl e
      | Inr idx \<Rightarrow> Inr (pairing_engine_with pick (find_candidates maxDist idx) reps))"

definition run_engine ::
  "int option \<Rightarrow> nat \<Rightarrow> hit_record list \<Rightarrow> engine_error + hit_index \<times> pair list \<times> nat list" where
  "run_engine maxDist reps hs = run_engine_with best maxDist reps hs"

text \<open>Three hits of one group: A on the plus strand, B and C on the minus strand.\<close>

definition hitA :: hit_record where
  "hitA = \<lparr>model = ''TIR1'', chromosome = ''chr1'', start = 100, end_pos = 120, strand = Plus,
           evalue = 1 / 1000, source = ProfileScan\<rparr>"

definition hitB :: hit_record where
  "hitB = \<lparr>model = ''TIR1'', chromosome = ''chr1'', start = 170, end_pos = 190, strand = Minus,
           evalue = 1 / 100, source = ProfileScan\<rparr>"

definition hitC :: hit_record where
  "hitC = \<lparr>model = ''TIR1'', chromosome = ''chr1'', start = 250, end_pos = 270, strand = Minus,
           evalue = 5 / 100, source = ProfileScan\<rparr>"

text \<open>A hit on the minus strand, five million bases downstream of A.\<close>

definition hitFar :: hit_record where
  "hitFar = \<lparr>model = ''TIR1'', chromosome = ''chr1'', start = 5000000, end_pos = 5000020,
             strand = Minus, evalue = 1 / 100, source = ProfileScan\<rparr>"

text \<open>
  Modelled from the spec: the vocabulary of step 6 of section 4.3. One round commits the
  pairs it finds; a round is unproductive when it finds none; a group is resolved when
  no unpaired hit of the group has a remaining candidate; the patience is spent after
  round \<open>n\<close> when the last \<open>stableReps + 1\<close> rounds were all unproductive.
\<close>

definition do_round :: "chooser \<Rightarrow> string \<times> string \<Rightarrow> engine_state \<Rightarrow> engine_state" where
  "do_round pick g st = commit (round_pairs pick g (index st)) st"

definition state_after :: "chooser \<Rightarrow> string \<times> string \<Rightarrow> nat \<Rightarrow> engine_state \<Rightarrow> engine_state" where
  "state_after pick g n st = ((do_round pick g) ^^ n) st"








text \<open>
  Modelled from the spec: the element feature of section 3 and the ElementExtractor of
  section 4.4 (\<^verbatim>\<open>tirmite.fetchElements\<close>, \<^verbatim>\<open>tirmite.fetchUnpaired\<close>). A feature
  has the chromosome, the span, the strands and ids of its member hits, the model and
  its name: the prefix, if one is supplied, and a counter. The counters are assigned
  from 1 in the order of chromosome and start position.
\<close>

record feature =
  f_chromosome :: string
  f_start :: int
  f_end :: int
  f_model :: string
  f_strands :: "strand list"
  f_members :: "nat list"
  f_name :: "string option \<times> nat"

definition pair_feature :: "hit_index \<Rightarrow> string option \<Rightarrow> nat \<Rightarrow> pair \<Rightarrow> feature" where
  "pair_feature idx pfx n p =
     \<lparr> f_chromosome = chromosome (hit (idx ! five_prime p)),
       f_start = span_start p,
       f_end = span_end p,
       f_model = model (hit (idx ! five_prime p)),
       f_strands = [strand (hit (idx ! five_prime p)), strand (hit (idx ! three_prime p))],
       f_members = [five_prime p, three_prime p],
       f_name = (pfx, n) \<rparr>"

definition fetch_elements :: "string option \<Rightarrow> hit_index \<Rightarrow> pair list \<Rightarrow> feature list" where
  "fetch_elements pfx idx paired =
     map (\<lambda>(n, p). pair_feature idx pfx n p)
       (enumerate 1 (sort_key (\<lambda>p. (chromosome (hit (idx ! five_prime p)), span_start p)) paired))"

definition hit_feature :: "hit_index \<Rightarrow> string option \<Rightarrow> nat \<Rightarrow> nat \<Rightarrow> feature" where
  "hit_feature idx pfx n i =
     \<lparr> f_chromosome = chromosome (hit (idx ! i)),
       f_start = start (hit (idx ! i)),
       f_end = end_pos (hit (idx ! i)),
       f_model = model (hit (idx ! i)),
       f_strands = [strand (hit (idx ! i))],
       f_members = [i],
       f_name = (pfx, n) \<rparr>"

definition fetch_unpaired :: "string option \<Rightarrow> hit_index \<Rightarrow> nat list \<Rightarrow> feature list" where
  "fetch_unpaired pfx idx unpaired =
     map (\<lambda>(n, i). hit_feature idx pfx n i)
       (enumerate 1 (sort_key (\<lambda>i. (chromosome (hit (idx ! i)), start (hit (idx ! i)))) unpaired))"

text \<open>
  Modelled from the spec: the final filter of section 4.4 (inside
  \<^verbatim>\<open>tirmite.writeTIRs\<close>). The hits whose records are emitted are those with an
  e-value of at most the threshold.
\<close>

definition emit_hits :: "rat \<Rightarrow> hit_index \<Rightarrow> nat list" where
  "emit_hits threshold idx = filter (\<lambda>i. evalue (hit (idx ! i)) \<le> threshold) [0..<length idx]"

text \<open>
  Modelled from the spec: the whole flow of section 2, from the hit list to everything
  that is handed to the serializers.
\<close>

record annotation =
  ann_paired :: "pair list"
  ann_unpaired :: "nat list"
  ann_elements :: "feature list"
  ann_leftover :: "feature list"
  ann_hits :: "nat list"

definition annotate_with ::
  "chooser \<Rightarrow> int option \<Rightarrow> nat \<Rightarrow> rat \<Rightarrow> string option \<Rightarrow> hit_record list
     \<Rightarrow> engine_error + annotation" where
  "annotate_with pick maxDist reps threshold pfx hs =
     (case run_engine_with pick maxDist reps hs of
        Inl e \<Rightarrow> Inl e
      | Inr (idx, paired, unpaired) \<Rightarrow>
          Inr \<lparr> ann_paired = paired,
                ann_unpaired = unpaired,
                ann_elements = fetch_elements pfx idx paired,
                ann_leftover = fetch_unpaired pfx idx unpaired,
                ann_hits = emit_hits threshold idx \<rparr>)"

definition annotate ::
  "int option \<Rightarrow> nat \<Rightarrow> rat \<Rightarrow> string option \<Rightarrow> hit_record list \<Rightarrow> engine_error + annotation" where
  "annotate maxDist reps threshold pfx hs = annotate_with best maxDist reps threshold pfx hs"

text \<open>
  What the flow returns for the hits A, B and C with \<^verbatim>\<open>maxDist = 200\<close> and the
  threshold 0.001: A and B are paired, and only the record of A is emitted.
\<close>

definition abc_annotation :: annotation where
  "abc_annotation =
     \<lparr>ann_paired = [\<lparr>five_prime = 0, three_prime = 1, span_start = 100, span_end = 190\<rparr>],
      ann_unpaired = [2],
      ann_elements =
        [\<lparr>f_chromosome = ''chr1'', f_start = 100, f_end = 190, f_model = ''TIR1'',
          f_strands = [Plus, Minus], f_members = [0, 1], f_name = (None, 1)\<rparr>],
      ann_leftover =
        [\<lparr>f_chromosome = ''chr1'', f_start = 250, f_end = 270, f_model = ''TIR1'',
          f_strands = [Minus], f_members = [2], f_name = (None, 1)\<rparr>],
      ann_hits = [0]\<rparr>"

section \<open>Properties of the driver\<close>

lemma missing_tools_all_found: "missing_tools a (all_found w) = []"
  by (simp add: missing_tools_def missing_tool_def all_found_def tools_def)

lemma check_tools_all_found: "check_tools a (all_found w) = []"
  by (simp add: check_tools_def missing_tools_all_found)

lemma search_hits_all_found: "search_hits a (all_found w) = search_hits a w"
  by (simp add: search_hits_def all_found_def Let_def)

lemma report_hits_all_found: "report_hits a (all_found w) = report_hits a w"
  by (simp add: report_hits_def all_found_def remove_temp_def write_gff_def split: option.splits)

lemma set_missing_tools:
  "set (missing_tools a w) = {t \<in> set (tools a). which w t = None}"
  by (auto simp: missing_tools_def missing_tool_def split: option.splits)

lemma main_split_warning:
  "main a w = (check_tools a w @ fst (main a (all_found w)), snd (main a (all_found w)))"
  by (simp add: main_def search_hits_all_found report_hits_all_found check_tools_all_found
        split: prod.splits option.splits)

lemma main_all_found_starts: "hd (fst (main a (all_found w))) = Dochecks a"
  by (simp add: main_def check_tools_all_found split: prod.splits option.splits)

text \<open>
  Claim C8. Missing external tools never abort the run: whatever tools are missing,
  the run is the run of a world where every tool is found, preceded only by the
  warning. The warning consists of prints only, is empty exactly when no tool is
  missing, otherwise starts with the message that lists the missing tools, and the
  call that follows it is always \<^verbatim>\<open>tirmite.dochecks\<close>.
\<close>

theorem missing_tools_only_warn:
  "fst (main a w) = check_tools a w @ fst (main a (all_found w))
   \<and> snd (main a w) = snd (main a (all_found w))
   \<and> list_all is_print (check_tools a w)
   \<and> (check_tools a w = [] \<longleftrightarrow> {t \<in> set (tools a). which w t = None} = {})
   \<and> (check_tools a w \<noteq> [] \<longrightarrow>
        hd (check_tools a w) =
          Print (''WARNING: Some tools required by tirmite could not be found: ''
                 @ join_str '', '' (missing_tools a w))
        \<and> set (missing_tools a w) = {t \<in> set (tools a). which w t = None})
   \<and> hd (fst (main a (all_found w))) = Dochecks a"
proof -
  have split: "main a w = (check_tools a w @ fst (main a (all_found w)), snd (main a (all_found w)))"
    by (rule main_split_warning)
  have prints: "list_all is_print (check_tools a w)"
    by (simp add: check_tools_def)
  have empty: "check_tools a w = [] \<longleftrightarrow> {t \<in> set (tools a). which w t = None} = {}"
  proof -
    have "missing_tools a w = [] \<longleftrightarrow> set (missing_tools a w) = {}"
      by simp
    then show ?thesis
      unfolding set_missing_tools by (simp add: check_tools_def)
  qed
  have names: "check_tools a w \<noteq> [] \<longrightarrow>
        hd (check_tools a w) =
          Print (''WARNING: Some tools required by tirmite could not be found: ''
                 @ join_str '', '' (missing_tools a w))
        \<and> set (missing_tools a w) = {t \<in> set (tools a). which w t = None}"
    using set_missing_tools [of a w] by (simp add: check_tools_def)
  from split prints empty names main_all_found_starts [of a w] show ?thesis
    by simp
qed

theorem missing_tools_only_warn_witness:
  "check_tools default_args bare_world \<noteq> []
   \<and> hd (check_tools default_args bare_world) =
       Print (''WARNING: Some tools required by tirmite could not be found: ''
              @ ''hmmpress, nhmmer, hmmbuild, bowtie2, bowtie2-build, samtools, bedtools'')
   \<and> snd (main default_args bare_world) = Finished
   \<and> hd (fst (main default_args (all_found bare_world))) = Dochecks default_args"
proof -
  have ne: "check_tools default_args bare_world \<noteq> []"
    by (simp add: check_tools_def missing_tools_def missing_tool_def tools_def
          default_args_def bare_world_def)
  have ms: "missing_tools default_args bare_world =
      [''hmmpress'', ''nhmmer'', ''hmmbuild'', ''bowtie2'', ''bowtie2-build'', ''samtools'', ''bedtools'']"
    by (simp add: missing_tools_def missing_tool_def tools_def default_args_def bare_world_def)
  have out: "snd (main default_args (all_found bare_world)) = Finished"
    by (simp add: main_def search_hits_def report_hits_def all_found_def
          default_args_def bare_world_def Let_def)
  from missing_tools_only_warn [of default_args bare_world] ne ms out show ?thesis
    by simp
qed

lemma search_hits_no_rmtree: "\<not> list_ex is_rmtree (fst (search_hits a w))"
  by (auto simp: search_hits_def Let_def list_ex_iff)

lemma search_hits_no_write: "\<not> list_ex is_write_tirs (fst (search_hits a w))"
  by (auto simp: search_hits_def Let_def list_ex_iff)

lemma search_hits_no_pairing: "\<not> list_ex is_pairing_step (fst (search_hits a w))"
  by (auto simp: search_hits_def Let_def list_ex_iff)

lemma check_tools_plain:
  "\<not> list_ex is_rmtree (check_tools a w)" "\<not> list_ex is_write_tirs (check_tools a w)"
  "\<not> list_ex is_pairing_step (check_tools a w)"
  by (simp_all add: check_tools_def)

lemma search_hits_leaves:
  "snd (search_hits a w) = (if \<not> useBowtie2 a \<and> tab_files w = [] then Some 1 else None)"
  by (simp add: search_hits_def Let_def)

lemma main_no_hits:
  assumes "\<not> useBowtie2 a" and "tab_files w = []"
  shows "main a w = (check_tools a w @ [Dochecks a, ImportFasta (genome a)] @ fst (search_hits a w),
                     SysExit 1)"
proof -
  obtain found left where sh: "search_hits a w = (found, left)"
    by (cases "search_hits a w")
  with assms search_hits_leaves [of a w] have "left = Some 1" by simp
  with sh show ?thesis by (simp add: main_def)
qed

lemma main_with_hits:
  assumes "useBowtie2 a \<or> tab_files w \<noteq> []"
  shows "main a w = (check_tools a w @ [Dochecks a, ImportFasta (genome a)] @ fst (search_hits a w)
                       @ fst (report_hits a w), snd (report_hits a w))"
proof -
  obtain found left where sh: "search_hits a w = (found, left)"
    by (cases "search_hits a w")
  with assms search_hits_leaves [of a w] have "left = None" by auto
  with sh show ?thesis by (simp add: main_def split: prod.splits)
qed

lemma write_gff_no_rmtree: "\<not> list_ex is_rmtree (write_gff a w)"
  by (simp add: write_gff_def split: option.splits)

text \<open>
  Claim C5, as stated, has the run end with a non-error exit when the search step left
  no result file. At the default arguments and a world without result files the exit
  status is 1.
\<close>

theorem no_hits_exit_counterexample:
  "\<not> useBowtie2 default_args \<and> tab_files no_hits_world = []
   \<and> exit_status (snd (main default_args no_hits_world)) \<noteq> 0"
  using main_no_hits [of default_args no_hits_world]
  by (simp add: default_args_def no_hits_world_def bare_world_def)

text \<open>
  Claim C5, amended. When the search step of the nhmmer path leaves no result file,
  the last thing the run does is print the message \<^verbatim>\<open>No hits found in <resultDir> . Quitting.\<close>,
  and the process ends through \<^verbatim>\<open>sys.exit(1)\<close>: an orderly exit announced to the user,
  with exit status 1.
\<close>

theorem no_hits_exit:
  assumes "\<not> useBowtie2 a" and "tab_files w = []"
  shows "snd (main a w) = SysExit 1
         \<and> last (fst (main a w)) = Print (''No hits found in '' @ resultDir w @ '' . Quitting.'')"
  using assms main_no_hits [OF assms] by (simp add: search_hits_def Let_def)

theorem no_hits_exit_witness:
  "snd (main default_args no_hits_world) = SysExit 1
   \<and> last (fst (main default_args no_hits_world)) =
       Print ''No hits found in out/temp/nhmmer_results . Quitting.''"
proof -
  have h1: "\<not> useBowtie2 default_args" by (simp add: default_args_def)
  have h2: "tab_files no_hits_world = []" by (simp add: no_hits_world_def bare_world_def)
  from no_hits_exit [OF h1 h2] show ?thesis
    by (simp add: no_hits_world_def bare_world_def)
qed

text \<open>
  Claim C9, as stated, has every run with \<^verbatim>\<open>--nopairing\<close> write the TIR hit fasta
  output. With \<^verbatim>\<open>--nopairing\<close> set and no result file, the run leaves at line 108
  and never calls \<^verbatim>\<open>tirmite.writeTIRs\<close>.
\<close>

theorem nopairing_exit_counterexample:
  "nopairing (default_args\<lparr>nopairing := True\<rparr>)
   \<and> \<not> list_ex is_write_tirs (fst (main (default_args\<lparr>nopairing := True\<rparr>) no_hits_world))"
proof -
  have h1: "\<not> useBowtie2 (default_args\<lparr>nopairing := True\<rparr>)" by (simp add: default_args_def)
  have h2: "tab_files no_hits_world = []" by (simp add: no_hits_world_def bare_world_def)
  show ?thesis
    using main_no_hits [OF h1 h2] search_hits_no_write check_tools_plain(2)
    by simp
qed

text \<open>
  Claim C9, amended. Every run with \<^verbatim>\<open>--nopairing\<close> ends with exit status 1 and never
  reaches the pairing, element extraction or GFF writing steps. When the run gets
  past the search step (bowtie2 mode, or at least one result file), it ends with the
  call of \<^verbatim>\<open>tirmite.writeTIRs\<close>, followed by the removal of the temp directory unless
  \<^verbatim>\<open>--keeptemp\<close> is set, and nothing was written or removed before.
\<close>

theorem nopairing_exit:
  assumes "nopairing a"
  shows "snd (main a w) = SysExit 1
         \<and> \<not> list_ex is_pairing_step (fst (main a w))
         \<and> (useBowtie2 a \<or> tab_files w \<noteq> [] \<longrightarrow>
              (\<exists>before. fst (main a w) =
                   before @ [WriteTIRs (outDir w) (maxeval a) None]
                          @ (if keeptemp a then [] else [Rmtree (tempDir w)])
                 \<and> \<not> list_ex is_write_tirs before \<and> \<not> list_ex is_rmtree before))"
proof (cases "useBowtie2 a \<or> tab_files w \<noteq> []")
  case True
  let ?before = "check_tools a w @ [Dochecks a, ImportFasta (genome a)] @ fst (search_hits a w)
                   @ [Table2dict]"
  have tr: "fst (main a w) = ?before @ [WriteTIRs (outDir w) (maxeval a) None]
                          @ (if keeptemp a then [] else [Rmtree (tempDir w)])"
    using main_with_hits [OF True] assms by (simp add: report_hits_def remove_temp_def)
  have out: "snd (main a w) = SysExit 1"
    using main_with_hits [OF True] assms by (simp add: report_hits_def)
  have b1: "\<not> list_ex is_write_tirs ?before"
    using search_hits_no_write [of a w] check_tools_plain(2) [of a w] by simp
  have b2: "\<not> list_ex is_rmtree ?before"
    using search_hits_no_rmtree [of a w] check_tools_plain(1) [of a w] by simp
  have b3: "\<not> list_ex is_pairing_step (fst (main a w))"
    unfolding tr using search_hits_no_pairing [of a w] check_tools_plain(3) [of a w] by simp
  from tr out b1 b2 b3 show ?thesis by blast
next
  case False
  then have h: "\<not> useBowtie2 a" "tab_files w = []" by simp_all
  show ?thesis
    using main_no_hits [OF h] False search_hits_no_pairing [of a w] check_tools_plain(3) [of a w]
    by simp
qed

theorem nopairing_exit_witness:
  "fst (main (default_args\<lparr>nopairing := True\<rparr>) (all_found bare_world)) =
     [Dochecks (default_args\<lparr>nopairing := True\<rparr>), ImportFasta ''genome.fa'',
      CmdScript None None False ''out/temp'' (default_args\<lparr>nopairing := True\<rparr>),
      RunCmd False False, ImportNhmmer ''out/temp/nhmmer_results/TIR.tab'' None, Table2dict,
      WriteTIRs ''out'' (1 / 1000) None, Rmtree ''out/temp'']
   \<and> snd (main (default_args\<lparr>nopairing := True\<rparr>) (all_found bare_world)) = SysExit 1"
proof -
  have h: "nopairing (default_args\<lparr>nopairing := True\<rparr>)" by simp
  have tr: "fst (main (default_args\<lparr>nopairing := True\<rparr>) (all_found bare_world)) =
     [Dochecks (default_args\<lparr>nopairing := True\<rparr>), ImportFasta ''genome.fa'',
      CmdScript None None False ''out/temp'' (default_args\<lparr>nopairing := True\<rparr>),
      RunCmd False False, ImportNhmmer ''out/temp/nhmmer_results/TIR.tab'' None, Table2dict,
      WriteTIRs ''out'' (1 / 1000) None, Rmtree ''out/temp'']"
    by (simp add: main_def check_tools_def missing_tools_def missing_tool_def tools_def
          search_hits_def report_hits_def remove_temp_def Let_def all_found_def
          default_args_def bare_world_def)
  from nopairing_exit [OF h, of "all_found bare_world"] tr show ?thesis by simp
qed

text \<open>
  Claim C10. On the no-hits exit the run calls \<^verbatim>\<open>shutil.rmtree\<close> nowhere, whatever
  \<^verbatim>\<open>--keeptemp\<close> says. In every other run (the exit of \<^verbatim>\<open>--nopairing\<close> with status
  1, and the completed run) the temp directory is removed as the last action exactly
  when \<^verbatim>\<open>--keeptemp\<close> is unset, and nowhere before.
\<close>

theorem temp_dir_removal:
  "(\<not> useBowtie2 a \<and> tab_files w = [] \<longrightarrow>
      snd (main a w) = SysExit 1 \<and> \<not> list_ex is_rmtree (fst (main a w)))
   \<and> (useBowtie2 a \<or> tab_files w \<noteq> [] \<longrightarrow>
        snd (main a w) = (if nopairing a then SysExit 1 else Finished)
        \<and> (\<exists>before. fst (main a w) = before @ (if keeptemp a then [] else [Rmtree (tempDir w)])
              \<and> \<not> list_ex is_rmtree before))"
proof (cases "useBowtie2 a \<or> tab_files w \<noteq> []")
  case True
  let ?start = "check_tools a w @ [Dochecks a, ImportFasta (genome a)] @ fst (search_hits a w)"
  let ?steps = "(if nopairing a then [Table2dict, WriteTIRs (outDir w) (maxeval a) None]
                 else [Table2dict, ParseHits (maxdist a), IterateGetPairs (stableReps a),
                       WriteTIRs (outDir w) (maxeval a) (prefix a), FetchElements,
                       WriteElements (outDir w) (prefix a)] @ write_gff a w)"
  have tr: "fst (main a w) = (?start @ ?steps) @ (if keeptemp a then [] else [Rmtree (tempDir w)])"
    using main_with_hits [OF True] by (simp add: report_hits_def remove_temp_def)
  have out: "snd (main a w) = (if nopairing a then SysExit 1 else Finished)"
    using main_with_hits [OF True] by (simp add: report_hits_def)
  have clean: "\<not> list_ex is_rmtree (?start @ ?steps)"
    using search_hits_no_rmtree [of a w] check_tools_plain(1) [of a w] write_gff_no_rmtree [of a w]
    by simp
  from tr out clean True show ?thesis by blast
next
  case False
  then have h: "\<not> useBowtie2 a" "tab_files w = []" by simp_all
  show ?thesis
    using main_no_hits [OF h] False search_hits_no_rmtree [of a w] check_tools_plain(1) [of a w]
    by simp
qed

theorem temp_dir_removal_witness:
  "\<not> list_ex is_rmtree (fst (main default_args no_hits_world))
   \<and> \<not> list_ex is_rmtree (fst (main (default_args\<lparr>keeptemp := True\<rparr>) no_hits_world))
   \<and> snd (main default_args bare_world) = Finished
   \<and> last (fst (main default_args bare_world)) = Rmtree ''out/temp''
   \<and> last (fst (main (default_args\<lparr>nopairing := True\<rparr>) bare_world)) = Rmtree ''out/temp''
   \<and> \<not> list_ex is_rmtree (fst (main (default_args\<lparr>keeptemp := True\<rparr>) bare_world))"
proof -
  have n: "tab_files no_hits_world = []" "tab_files bare_world \<noteq> []"
    by (simp_all add: no_hits_world_def bare_world_def)
  have u: "\<not> useBowtie2 default_args" "\<not> keeptemp default_args" "\<not> nopairing default_args"
    by (simp_all add: default_args_def)
  have t: "tempDir bare_world = ''out/temp''" by (simp add: bare_world_def)
  have c1: "\<not> list_ex is_rmtree (fst (main default_args no_hits_world))"
    using temp_dir_removal [of default_args no_hits_world] n u by simp
  have c2: "\<not> list_ex is_rmtree (fst (main (default_args\<lparr>keeptemp := True\<rparr>) no_hits_world))"
    using temp_dir_removal [of "default_args\<lparr>keeptemp := True\<rparr>" no_hits_world] n u by simp
  have c3: "snd (main default_args bare_world) = Finished
            \<and> last (fst (main default_args bare_world)) = Rmtree ''out/temp''"
    using temp_dir_removal [of default_args bare_world] n u t by auto
  have c4: "last (fst (main (default_args\<lparr>nopairing := True\<rparr>) bare_world)) = Rmtree ''out/temp''"
    using temp_dir_removal [of "default_args\<lparr>nopairing := True\<rparr>" bare_world] n u t by auto
  have c5: "\<not> list_ex is_rmtree (fst (main (default_args\<lparr>keeptemp := True\<rparr>) bare_world))"
    using temp_dir_removal [of "default_args\<lparr>keeptemp := True\<rparr>" bare_world] n u by auto
  from c1 c2 c3 c4 c5 show ?thesis by simp
qed

text \<open>
  Claim C4. With a prefix supplied, the complete run hands the prefix to every call
  that writes output (lines 133, 139 and 150), but the run with \<^verbatim>\<open>--nopairing\<close>
  calls \<^verbatim>\<open>tirmite.writeTIRs\<close> at line 120 without it, so the hit-only output is
  written with the default \<^verbatim>\<open>prefix=None\<close>.
\<close>

theorem nopairing_drops_prefix:
  "output_prefixes
     (fst (main (default_args\<lparr>prefix := Some ''run1'', gffOut := Some ''out.gff3''\<rparr>) bare_world))
     = [Some ''run1'', Some ''run1'', Some ''run1'']
   \<and> output_prefixes
       (fst (main (default_args\<lparr>prefix := Some ''run1'', gffOut := Some ''out.gff3'',
                                nopairing := True\<rparr>) bare_world))
     = [None]"
  by (simp add: output_prefixes_def List.map_filter_def main_def check_tools_def
        missing_tools_def missing_tool_def tools_def search_hits_def report_hits_def
        write_gff_def remove_temp_def Let_def default_args_def bare_world_def)

section \<open>Properties of the pairing engine\<close>

text \<open>
  The invariant of the engine state: every pair of the paired set joins two different
  hits of the index that are marked paired, are each other's partner and of which one
  is a candidate of the other; and every hit marked paired belongs to a pair of the
  paired set.
\<close>

definition consistent :: "engine_state \<Rightarrow> bool" where
  "consistent st =
     ((\<forall>p \<in> set (pairs st). \<exists>a b.
          p = mk_pair (index st) a b \<and> a \<noteq> b
          \<and> a < length (index st) \<and> b < length (index st)
          \<and> partner (index st ! a) = Some b \<and> partner (index st ! b) = Some a
          \<and> status (index st ! a) = Paired \<and> status (index st ! b) = Paired
          \<and> b \<in> set (candidates (index st ! a)))
      \<and> (\<forall>i < length (index st). status (index st ! i) = Paired \<longrightarrow>
            (\<exists>p \<in> set (pairs st). i \<in> members p)))"

lemma entry_commit:
  "i < length (index st) \<Longrightarrow>
   index (commit np st) ! i =
     (case partner_in np i of
        None \<Rightarrow> index st ! i
      | Some j \<Rightarrow> (index st ! i)\<lparr>partner := Some j, status := Paired\<rparr>)"
  by (simp add: commit_def split: option.splits)

lemma hit_commit: "i < length (index st) \<Longrightarrow> hit (index (commit np st) ! i) = hit (index st ! i)"
  by (simp add: entry_commit split: option.splits)

lemma candidates_commit:
  "i < length (index st) \<Longrightarrow> candidates (index (commit np st) ! i) = candidates (index st ! i)"
  by (simp add: entry_commit split: option.splits)

lemma mk_pair_cong:
  "hit (idx' ! a) = hit (idx ! a) \<Longrightarrow> hit (idx' ! b) = hit (idx ! b) \<Longrightarrow>
   mk_pair idx' a b = mk_pair idx a b"
  by (simp add: mk_pair_def upstream_def)

lemma mk_pair_commute: "a \<noteq> b \<Longrightarrow> mk_pair idx a b = mk_pair idx b a"
  by (auto simp: mk_pair_def upstream_def)

lemma partner_in_member:
  assumes "partner_in np i = Some j"
  shows "\<exists>q \<in> set np. i \<in> members q \<and> j \<in> members q \<and> (five_prime q \<noteq> three_prime q \<longrightarrow> j \<noteq> i)"
proof -
  from assms obtain q where q: "find (\<lambda>p. five_prime p = i \<or> three_prime p = i) np = Some q"
    and j: "j = (if five_prime q = i then three_prime q else five_prime q)"
    by (auto simp: partner_in_def split: option.splits)
  from q have "q \<in> set np" "five_prime q = i \<or> three_prime q = i"
    by (auto simp: find_Some_iff)
  with j show ?thesis by (auto simp: members_def)
qed

lemma round_pairs_overlap:
  assumes p: "p \<in> set (round_pairs pick g idx)" and q: "q \<in> set (round_pairs pick g idx)"
    and i: "i \<in> members p" "i \<in> members q"
  shows "q = p"
proof -
  from round_pairs_sound [OF p] obtain a b where
    ab: "p = mk_pair idx a b" "a < b" "pick idx a = Some b" "pick idx b = Some a" by blast
  from round_pairs_sound [OF q] obtain c d where
    cd: "q = mk_pair idx c d" "c < d" "pick idx c = Some d" "pick idx d = Some c" by blast
  from i ab(1) cd(1) have "i = a \<or> i = b" "i = c \<or> i = d" by simp_all
  with ab cd have "a = c \<and> b = d" by auto
  with ab(1) cd(1) show ?thesis by simp
qed

lemma partner_in_round:
  assumes p: "mk_pair idx a b \<in> set (round_pairs pick g idx)" and ne: "a \<noteq> b"
  shows "partner_in (round_pairs pick g idx) a = Some b"
proof -
  let ?np = "round_pairs pick g idx"
  have "\<exists>q \<in> set ?np. a \<in> members q"
    using p by (intro bexI [of _ "mk_pair idx a b"]) simp_all
  then have "partner_in ?np a \<noteq> None"
    using partner_in_Some [of ?np a] by blast
  then obtain j where j: "partner_in ?np a = Some j" by auto
  from partner_in_member [OF j] obtain q where
    q: "q \<in> set ?np" "a \<in> members q" "j \<in> members q" "five_prime q \<noteq> three_prime q \<longrightarrow> j \<noteq> a"
    by blast
  have "q = mk_pair idx a b"
    using round_pairs_overlap [OF p q(1), of a] q(2) by simp
  with q(3,4) ne have "j = b" by (auto simp: mk_pair_def members_def split: if_splits)
  with j show ?thesis by simp
qed

lemma consistent_commit:
  assumes c: "consistent st"
  shows "consistent (commit (round_pairs pick g (index st)) st)"
proof -
  let ?idx = "index st" and ?np = "round_pairs pick g (index st)"
  let ?st' = "commit ?np st"
  have new_unpaired: "status (?idx ! i) = Unpaired \<and> i < length ?idx"
    if "q \<in> set ?np" "i \<in> members q" for q i
    using round_pairs_sound [OF that(1)] that(2) by auto
  have old_kept: "index ?st' ! i = ?idx ! i" if "i < length ?idx" "status (?idx ! i) = Paired" for i
  proof -
    have "partner_in ?np i = None"
    proof (rule ccontr)
      assume "partner_in ?np i \<noteq> None"
      then obtain q where "q \<in> set ?np" "i \<in> members q"
        using partner_in_Some [of ?np i] by blast
      from new_unpaired [OF this] that(2) show False by simp
    qed
    with that(1) show ?thesis by (simp add: entry_commit)
  qed
  have mk: "mk_pair (index ?st') a b = mk_pair ?idx a b"
    if "a < length ?idx" "b < length ?idx" for a b
    using that by (intro mk_pair_cong) (simp_all add: hit_commit)
  have part1: "\<exists>a b. p = mk_pair (index ?st') a b \<and> a \<noteq> b
          \<and> a < length (index ?st') \<and> b < length (index ?st')
          \<and> partner (index ?st' ! a) = Some b \<and> partner (index ?st' ! b) = Some a
          \<and> status (index ?st' ! a) = Paired \<and> status (index ?st' ! b) = Paired
          \<and> b \<in> set (candidates (index ?st' ! a))"
    if p: "p \<in> set (pairs ?st')" for p
  proof (cases "p \<in> set (pairs st)")
    case True
    with c obtain a b where ab: "p = mk_pair ?idx a b" "a \<noteq> b" "a < length ?idx" "b < length ?idx"
      "partner (?idx ! a) = Some b" "partner (?idx ! b) = Some a"
      "status (?idx ! a) = Paired" "status (?idx ! b) = Paired"
      "b \<in> set (candidates (?idx ! a))"
      unfolding consistent_def by blast
    have "index ?st' ! a = ?idx ! a" "index ?st' ! b = ?idx ! b"
      using old_kept ab by simp_all
    with ab mk [of a b] show ?thesis by (intro exI [of _ a] exI [of _ b]) simp
  next
    case False
    with p have pn: "p \<in> set ?np" by (simp add: commit_def)
    from round_pairs_sound [OF pn] obtain a b where
      ab: "p = mk_pair ?idx a b" "a < length ?idx" "b < length ?idx" "a < b"
          "b \<in> set (candidates (?idx ! a))" by blast
    have pa: "partner_in ?np a = Some b"
      using partner_in_round [of ?idx a b pick g] pn ab(1,4) by simp
    have pb: "partner_in ?np b = Some a"
      using partner_in_round [of ?idx b a pick g] pn ab(1,4) mk_pair_commute [of a b ?idx] by simp
    from ab pa pb mk [of a b] show ?thesis
      by (intro exI [of _ a] exI [of _ b]) (simp add: entry_commit candidates_commit)
  qed
  have part2: "\<exists>p \<in> set (pairs ?st'). i \<in> members p"
    if i: "i < length (index ?st')" "status (index ?st' ! i) = Paired" for i
  proof (cases "\<exists>p \<in> set ?np. i \<in> members p")
    case True
    then show ?thesis by (auto simp: commit_def)
  next
    case False
    with i have "status (?idx ! i) = Paired" by (simp add: status_commit)
    with c i(1) obtain p where "p \<in> set (pairs st)" "i \<in> members p"
      unfolding consistent_def by auto
    then show ?thesis by (auto simp: commit_def)
  qed
  from part1 part2 show ?thesis unfolding consistent_def by blast
qed

lemma consistent_pair_loop: "consistent st \<Longrightarrow> consistent (pair_loop pick g reps k st)"
proof (induction pick g reps k st rule: pair_loop.induct)
  case (1 pick g reps k st)
  show ?case
  proof (cases "active g (index st) = []")
    case True
    then show ?thesis using "1.prems" by (subst pair_loop.simps) simp
  next
    case active: False
    show ?thesis
    proof (cases "round_pairs pick g (index st) = []")
      case True
      then show ?thesis
        using active "1.IH"(1) "1.prems" by (subst pair_loop.simps) (simp add: Let_def)
    next
      case False
      then show ?thesis
        using active "1.IH"(2) [OF active refl False] consistent_commit [OF "1.prems"]
        by (subst pair_loop.simps) (simp add: Let_def)
    qed
  qed
qed

text \<open>The engine changes neither the hits nor their candidate sets.\<close>

definition same_hits :: "hit_index \<Rightarrow> hit_index \<Rightarrow> bool" where
  "same_hits idx idx' =
     (length idx' = length idx
      \<and> (\<forall>i < length idx. hit (idx' ! i) = hit (idx ! i)
                          \<and> candidates (idx' ! i) = candidates (idx ! i)))"

lemma same_hits_refl: "same_hits idx idx"
  by (simp add: same_hits_def)

lemma same_hits_trans: "same_hits a b \<Longrightarrow> same_hits b c \<Longrightarrow> same_hits a c"
  by (simp add: same_hits_def)

lemma same_hits_commit: "same_hits (index st) (index (commit np st))"
  by (simp add: same_hits_def hit_commit candidates_commit)

lemma same_hits_pair_loop: "same_hits (index st) (index (pair_loop pick g reps k st))"
proof (induction pick g reps k st rule: pair_loop.induct)
  case (1 pick g reps k st)
  show ?case
  proof (cases "active g (index st) = []")
    case True
    then show ?thesis by (subst pair_loop.simps) (simp add: same_hits_refl)
  next
    case active: False
    show ?thesis
    proof (cases "round_pairs pick g (index st) = []")
      case True
      then show ?thesis
        using active "1.IH"(1)
        by (subst pair_loop.simps) (simp add: Let_def same_hits_refl)
    next
      case False
      then show ?thesis
        using active "1.IH"(2) [OF active refl False]
          same_hits_trans [OF same_hits_commit [of st "round_pairs pick g (index st)"]]
        by (subst pair_loop.simps) (simp add: Let_def)
    qed
  qed
qed

lemma consistent_resolve_groups:
  "consistent st \<Longrightarrow> consistent (resolve_groups pick reps gs st)"
  unfolding resolve_groups_def
  by (induction gs arbitrary: st) (simp_all add: consistent_pair_loop)

lemma same_hits_resolve_groups:
  "same_hits (index st) (index (resolve_groups pick reps gs st))"
  unfolding resolve_groups_def
proof (induction gs arbitrary: st)
  case Nil
  show ?case by (simp add: same_hits_refl)
next
  case (Cons g gs)
  show ?case
    using same_hits_trans [OF same_hits_pair_loop [of st pick g reps 0] Cons.IH]
    by simp
qed

lemma build_index_Inr:
  assumes "build_index hs = Inr idx"
  shows "idx = map (\<lambda>h. \<lparr>hit = h, candidates = [], partner = None, status = Unpaired\<rparr>) hs"
  using assms by (auto simp: build_index_def split: option.splits)

lemma build_index_total:
  "(\<exists>idx. build_index hs = Inr idx) \<longleftrightarrow> list_all well_formed hs"
proof -
  have "find (\<lambda>i. \<not> well_formed (hs ! i)) [0..<length hs] = None \<longleftrightarrow> list_all well_formed hs"
    by (auto simp: find_None_iff list_all_length)
  then show ?thesis by (auto simp: build_index_def split: option.splits)
qed

lemma find_candidates_entry:
  "i < length idx \<Longrightarrow>
   find_candidates maxDist idx ! i =
     (idx ! i)\<lparr>candidates := filter (is_candidate maxDist idx i) [0..<length idx]\<rparr>"
  by (simp add: find_candidates_def)

lemma length_find_candidates [simp]: "length (find_candidates maxDist idx) = length idx"
  by (simp add: find_candidates_def)

lemma consistent_initial:
  assumes "build_index hs = Inr idx"
  shows "consistent \<lparr>index = find_candidates maxDist idx, pairs = []\<rparr>"
  using build_index_Inr [OF assms]
  by (simp add: consistent_def find_candidates_entry)

lemma consistent_unique:
  assumes c: "consistent st" and p: "p \<in> set (pairs st)" and q: "q \<in> set (pairs st)"
    and i: "i \<in> members p" "i \<in> members q"
  shows "q = p"
proof -
  from c p obtain a b where ab: "p = mk_pair (index st) a b" "a \<noteq> b"
      "partner (index st ! a) = Some b" "partner (index st ! b) = Some a"
    unfolding consistent_def by blast
  from c q obtain c d where cd: "q = mk_pair (index st) c d" "c \<noteq> d"
      "partner (index st ! c) = Some d" "partner (index st ! d) = Some c"
    unfolding consistent_def by blast
  from i ab(1) cd(1) have "i = a \<or> i = b" "i = c \<or> i = d" by simp_all
  with ab cd have "(a = c \<and> b = d) \<or> (a = d \<and> b = c)" by auto
  with ab(1,2) cd(1) mk_pair_commute [of a b "index st"] show ?thesis by auto
qed

lemma partition_with:
  assumes run: "run_engine_with pick maxDist reps hs = Inr (idx, paired, unpaired)"
  shows "length idx = length hs"
    and "set unpaired \<subseteq> {..<length hs}"
    and "\<forall>p \<in> set paired. members p \<subseteq> {..<length hs}"
    and "\<forall>i < length hs.
           (i \<in> set unpaired \<and> \<not> (\<exists>p \<in> set paired. i \<in> members p))
           \<or> (i \<notin> set unpaired \<and> (\<exists>!p. p \<in> set paired \<and> i \<in> members p))"
proof -
  from run obtain idx0 where b: "build_index hs = Inr idx0"
    and r: "pairing_engine_with pick (find_candidates maxDist idx0) reps = (idx, paired, unpaired)"
    by (auto simp: run_engine_with_def split: sum.splits)
  let ?init = "\<lparr>index = find_candidates maxDist idx0, pairs = []\<rparr>"
  let ?st = "resolve_groups pick reps (group_keys (find_candidates maxDist idx0)) ?init"
  from r have res: "idx = index ?st" "paired = pairs ?st" "unpaired = unpaired_ids (index ?st)"
    by (auto simp: pairing_engine_with_def Let_def)
  have c: "consistent ?st"
    by (rule consistent_resolve_groups [OF consistent_initial [OF b]])
  have len: "length (index ?st) = length hs"
    using same_hits_resolve_groups [of ?init pick reps "group_keys (find_candidates maxDist idx0)"]
      build_index_Inr [OF b]
    by (simp add: same_hits_def)
  show "length idx = length hs" using res len by simp
  show "set unpaired \<subseteq> {..<length hs}"
    using res len by (auto simp: unpaired_ids_def)
  show "\<forall>p \<in> set paired. members p \<subseteq> {..<length hs}"
  proof
    fix p assume "p \<in> set paired"
    with res c obtain a b' where "p = mk_pair (index ?st) a b'"
      "a < length (index ?st)" "b' < length (index ?st)"
      unfolding consistent_def by blast
    with len show "members p \<subseteq> {..<length hs}" by simp
  qed
  show "\<forall>i < length hs.
           (i \<in> set unpaired \<and> \<not> (\<exists>p \<in> set paired. i \<in> members p))
           \<or> (i \<notin> set unpaired \<and> (\<exists>!p. p \<in> set paired \<and> i \<in> members p))"
  proof (intro allI impI)
    fix i assume i: "i < length hs"
    show "(i \<in> set unpaired \<and> \<not> (\<exists>p \<in> set paired. i \<in> members p))
           \<or> (i \<notin> set unpaired \<and> (\<exists>!p. p \<in> set paired \<and> i \<in> members p))"
    proof (cases "status (index ?st ! i)")
      case Unpaired
      have "\<not> (\<exists>p \<in> set paired. i \<in> members p)"
      proof
        assume "\<exists>p \<in> set paired. i \<in> members p"
        then obtain p where p: "p \<in> set (pairs ?st)" "i \<in> members p" using res by auto
        from c p(1) obtain a b' where "p = mk_pair (index ?st) a b'"
          "status (index ?st ! a) = Paired" "status (index ?st ! b') = Paired"
          unfolding consistent_def by blast
        with p(2) Unpaired show False by auto
      qed
      moreover have "i \<in> set unpaired"
        using Unpaired i len res by (simp add: unpaired_ids_def)
      ultimately show ?thesis by simp
    next
      case Paired
      then have out: "i \<notin> set unpaired" using res by (simp add: unpaired_ids_def)
      from c Paired i len obtain p where p: "p \<in> set (pairs ?st)" "i \<in> members p"
        unfolding consistent_def by auto
      have "\<exists>!p. p \<in> set paired \<and> i \<in> members p"
      proof (rule ex1I [of _ p])
        show "p \<in> set paired \<and> i \<in> members p" using p res by simp
      next
        fix q assume "q \<in> set paired \<and> i \<in> members q"
        then show "q = p" using consistent_unique [OF c p(1) _ p(2)] res by simp
      qed
      with out show ?thesis by simp
    qed
  qed
qed

text \<open>
  Claim C1. After the engine has run on a hit list, every input hit id is either in
  the unpaired set and in no pair, or outside the unpaired set and a member of exactly
  one pair of the paired set; the two sets mention input hit ids only.
\<close>

theorem engine_partition:
  assumes "run_engine maxDist reps hs = Inr (idx, paired, unpaired)"
  shows "(\<forall>i < length hs.
            (i \<in> set unpaired \<and> \<not> (\<exists>p \<in> set paired. i \<in> members p))
            \<or> (i \<notin> set unpaired \<and> (\<exists>!p. p \<in> set paired \<and> i \<in> members p)))
         \<and> set unpaired \<subseteq> {..<length hs}
         \<and> (\<forall>p \<in> set paired. members p \<subseteq> {..<length hs})"
  using partition_with [of best maxDist reps hs idx paired unpaired] assms
  unfolding run_engine_def by blast

theorem engine_partition_witness:
  "\<exists>idx paired unpaired.
     run_engine (Some 200) 0 [hitA, hitB, hitC] = Inr (idx, paired, unpaired)
     \<and> paired = [\<lparr>five_prime = 0, three_prime = 1, span_start = 100, span_end = 190\<rparr>]
     \<and> unpaired = [2]
     \<and> (\<exists>!p. p \<in> set paired \<and> 0 \<in> members p)
     \<and> (\<exists>!p. p \<in> set paired \<and> 1 \<in> members p)
     \<and> \<not> (\<exists>p \<in> set paired. 2 \<in> members p)"
proof -
  let ?paired = "[\<lparr>five_prime = 0, three_prime = 1, span_start = 100, span_end = 190\<rparr>]"
  have "map_sum id snd (run_engine (Some 200) 0 [hitA, hitB, hitC]) = Inr (?paired, [2])"
    by code_simp
  then obtain idx where r: "run_engine (Some 200) 0 [hitA, hitB, hitC] = Inr (idx, ?paired, [2])"
    by (cases "run_engine (Some 200) 0 [hitA, hitB, hitC]") auto
  from engine_partition [OF r] have
    all: "\<forall>i < 3. (i \<in> set [2::nat] \<and> \<not> (\<exists>p \<in> set ?paired. i \<in> members p))
            \<or> (i \<notin> set [2::nat] \<and> (\<exists>!p. p \<in> set ?paired \<and> i \<in> members p))"
    by simp
  have lt: "(0::nat) < 3" "(1::nat) < 3" "(2::nat) < 3" by simp_all
  have mem: "(0::nat) \<notin> set [2::nat]" "(1::nat) \<notin> set [2::nat]" "(2::nat) \<in> set [2::nat]"
    by simp_all
  from all lt(1) mem(1) have p0: "\<exists>!p. p \<in> set ?paired \<and> 0 \<in> members p" by blast
  from all lt(2) mem(2) have p1: "\<exists>!p. p \<in> set ?paired \<and> 1 \<in> members p" by blast
  from all lt(3) mem(3) have p2: "\<not> (\<exists>p \<in> set ?paired. 2 \<in> members p)" by blast
  from r p0 p1 p2 show ?thesis by blast
qed

lemma gap_commute: "gap h h' = gap h' h"
  by (simp add: gap_def max.commute min.commute)

lemma engine_frame:
  assumes run: "run_engine_with pick maxDist reps hs = Inr (idx, paired, unpaired)"
  shows "length idx = length hs"
    and "\<forall>i < length hs. hit (idx ! i) = hs ! i"
    and "\<forall>i < length hs. set (candidates (idx ! i)) =
            {j. j < length hs \<and> j \<noteq> i
                \<and> model (hs ! j) = model (hs ! i) \<and> chromosome (hs ! j) = chromosome (hs ! i)
                \<and> strand (hs ! j) \<noteq> strand (hs ! i)
                \<and> in_reach maxDist (gap (hs ! i) (hs ! j))}"
proof -
  from run obtain idx0 where b: "build_index hs = Inr idx0"
    and r: "pairing_engine_with pick (find_candidates maxDist idx0) reps = (idx, paired, unpaired)"
    by (auto simp: run_engine_with_def split: sum.splits)
  let ?init = "\<lparr>index = find_candidates maxDist idx0, pairs = []\<rparr>"
  let ?gs = "group_keys (find_candidates maxDist idx0)"
  from r have res: "idx = index (resolve_groups pick reps ?gs ?init)"
    by (auto simp: pairing_engine_with_def Let_def)
  have idx0: "idx0 = map (\<lambda>h. \<lparr>hit = h, candidates = [], partner = None, status = Unpaired\<rparr>) hs"
    by (rule build_index_Inr [OF b])
  have same: "same_hits (find_candidates maxDist idx0) idx"
    using same_hits_resolve_groups [of ?init pick reps ?gs] res by simp
  show len: "length idx = length hs"
    using same idx0 by (simp add: same_hits_def)
  show "\<forall>i < length hs. hit (idx ! i) = hs ! i"
    using same idx0 by (simp add: same_hits_def find_candidates_entry)
  show "\<forall>i < length hs. set (candidates (idx ! i)) =
            {j. j < length hs \<and> j \<noteq> i
                \<and> model (hs ! j) = model (hs ! i) \<and> chromosome (hs ! j) = chromosome (hs ! i)
                \<and> strand (hs ! j) \<noteq> strand (hs ! i)
                \<and> in_reach maxDist (gap (hs ! i) (hs ! j))}"
  proof (intro allI impI)
    fix i assume i: "i < length hs"
    have "candidates (idx ! i) = filter (is_candidate maxDist idx0 i) [0..<length idx0]"
      using same idx0 i by (simp add: same_hits_def find_candidates_entry)
    then show "set (candidates (idx ! i)) =
            {j. j < length hs \<and> j \<noteq> i
                \<and> model (hs ! j) = model (hs ! i) \<and> chromosome (hs ! j) = chromosome (hs ! i)
                \<and> strand (hs ! j) \<noteq> strand (hs ! i)
                \<and> in_reach maxDist (gap (hs ! i) (hs ! j))}"
      using idx0 i by (auto simp: is_candidate_def group_of_def)
  qed
qed

lemma engine_consistent:
  assumes run: "run_engine_with pick maxDist reps hs = Inr (idx, paired, unpaired)"
  shows "consistent \<lparr>index = idx, pairs = paired\<rparr>"
proof -
  from run obtain idx0 where b: "build_index hs = Inr idx0"
    and r: "pairing_engine_with pick (find_candidates maxDist idx0) reps = (idx, paired, unpaired)"
    by (auto simp: run_engine_with_def split: sum.splits)
  let ?init = "\<lparr>index = find_candidates maxDist idx0, pairs = []\<rparr>"
  let ?gs = "group_keys (find_candidates maxDist idx0)"
  from r have res: "\<lparr>index = idx, pairs = paired\<rparr> = resolve_groups pick reps ?gs ?init"
    by (auto simp: pairing_engine_with_def Let_def)
  show ?thesis
    unfolding res by (rule consistent_resolve_groups [OF consistent_initial [OF b]])
qed

lemma pair_in_reach:
  assumes run: "run_engine_with pick maxDist reps hs = Inr (idx, paired, unpaired)"
    and p: "p \<in> set paired"
  shows "in_reach maxDist (gap (hs ! five_prime p) (hs ! three_prime p))"
proof -
  from engine_consistent [OF run] p obtain a b where
    ab: "p = mk_pair idx a b" "a \<noteq> b" "a < length idx" "b < length idx"
        "b \<in> set (candidates (idx ! a))"
    unfolding consistent_def by auto
  from engine_frame [OF run] ab have "in_reach maxDist (gap (hs ! a) (hs ! b))"
    by auto
  moreover have "(five_prime p = a \<and> three_prime p = b) \<or> (five_prime p = b \<and> three_prime p = a)"
    using ab(1) by (simp add: mk_pair_def)
  ultimately show ?thesis using gap_commute [of "hs ! a" "hs ! b"] by auto
qed

text \<open>
  Claim C3. For every pair committed by the engine the gap between the spans of its two
  hits, \<^verbatim>\<open>max(0, max(h.start,h'.start) - min(h.end,h'.end))\<close>, is at most
  \<^verbatim>\<open>maxDist\<close> when \<^verbatim>\<open>maxDist\<close> is set. When it is unset, the candidates of a
  hit are all other hits of its group on the opposite strand, whatever their distance.
\<close>

theorem distance_bound:
  assumes "run_engine maxDist reps hs = Inr (idx, paired, unpaired)"
  shows "(\<forall>p \<in> set paired. \<forall>d. maxDist = Some d \<longrightarrow>
            max 0 (max (start (hs ! five_prime p)) (start (hs ! three_prime p))
                   - min (end_pos (hs ! five_prime p)) (end_pos (hs ! three_prime p))) \<le> d)
         \<and> (maxDist = None \<longrightarrow>
              (\<forall>i < length hs. set (candidates (idx ! i)) =
                 {j. j < length hs \<and> j \<noteq> i
                     \<and> model (hs ! j) = model (hs ! i) \<and> chromosome (hs ! j) = chromosome (hs ! i)
                     \<and> strand (hs ! j) \<noteq> strand (hs ! i)}))"
proof -
  have run: "run_engine_with best maxDist reps hs = Inr (idx, paired, unpaired)"
    using assms by (simp add: run_engine_def)
  have bound: "max 0 (max (start (hs ! five_prime p)) (start (hs ! three_prime p))
                   - min (end_pos (hs ! five_prime p)) (end_pos (hs ! three_prime p))) \<le> d"
    if "p \<in> set paired" "maxDist = Some d" for p d
    using pair_in_reach [OF run that(1)] that(2) by (simp add: in_reach_def gap_def)
  have free: "set (candidates (idx ! i)) =
                 {j. j < length hs \<and> j \<noteq> i
                     \<and> model (hs ! j) = model (hs ! i) \<and> chromosome (hs ! j) = chromosome (hs ! i)
                     \<and> strand (hs ! j) \<noteq> strand (hs ! i)}"
    if "maxDist = None" "i < length hs" for i
    using engine_frame(3) [OF run] that by (simp add: in_reach_def)
  from bound free show ?thesis by blast
qed

theorem distance_bound_witness:
  "(\<exists>idx. run_engine (Some 200) 0 [hitA, hitB, hitC] =
            Inr (idx, [\<lparr>five_prime = 0, three_prime = 1, span_start = 100, span_end = 190\<rparr>], [2])
          \<and> max 0 (max (start ([hitA, hitB, hitC] ! 0)) (start ([hitA, hitB, hitC] ! 1))
                   - min (end_pos ([hitA, hitB, hitC] ! 0)) (end_pos ([hitA, hitB, hitC] ! 1))) \<le> 200)
   \<and> (\<exists>idx. run_engine None 0 [hitA, hitFar] =
            Inr (idx, [\<lparr>five_prime = 0, three_prime = 1, span_start = 100, span_end = 5000020\<rparr>], [])
          \<and> set (candidates (idx ! 0)) = {1})
   \<and> map_sum id snd (run_engine (Some 200) 0 [hitA, hitFar]) = Inr ([], [0, 1])"
proof -
  let ?ab = "\<lparr>five_prime = 0, three_prime = 1, span_start = 100, span_end = 190\<rparr>"
  let ?af = "\<lparr>five_prime = 0, three_prime = 1, span_start = 100, span_end = 5000020\<rparr>"
  have "map_sum id snd (run_engine (Some 200) 0 [hitA, hitB, hitC]) = Inr ([?ab], [2])"
    by code_simp
  then obtain idx where r: "run_engine (Some 200) 0 [hitA, hitB, hitC] = Inr (idx, [?ab], [2])"
    by (cases "run_engine (Some 200) 0 [hitA, hitB, hitC]") auto
  have "map_sum id snd (run_engine None 0 [hitA, hitFar]) = Inr ([?af], [])"
    by code_simp
  then obtain idx' where r': "run_engine None 0 [hitA, hitFar] = Inr (idx', [?af], [])"
    by (cases "run_engine None 0 [hitA, hitFar]") auto
  have far: "map_sum id snd (run_engine (Some 200) 0 [hitA, hitFar]) = Inr ([], [0, 1])"
    by code_simp
  have b: "max 0 (max (start ([hitA, hitB, hitC] ! 0)) (start ([hitA, hitB, hitC] ! 1))
                   - min (end_pos ([hitA, hitB, hitC] ! 0)) (end_pos ([hitA, hitB, hitC] ! 1))) \<le> 200"
    using distance_bound [OF r] by simp
  have "set (candidates (idx' ! 0)) =
          {j. j < length [hitA, hitFar] \<and> j \<noteq> 0
              \<and> model ([hitA, hitFar] ! j) = model ([hitA, hitFar] ! 0)
              \<and> chromosome ([hitA, hitFar] ! j) = chromosome ([hitA, hitFar] ! 0)
              \<and> strand ([hitA, hitFar] ! j) \<noteq> strand ([hitA, hitFar] ! 0)}"
    using distance_bound [OF r'] by simp
  also have "\<dots> = {1}"
    by (auto simp: hitA_def hitFar_def less_Suc_eq)
  finally have c: "set (candidates (idx' ! 0)) = {1}" .
  from r b r' c far show ?thesis by blast
qed


lemma state_after_0 [simp]: "state_after pick g 0 st = st"
  by (simp add: state_after_def)











text \<open>
  The procedure \<open>best\<close> returns exactly the best remaining candidate in the words of
  the specification, and that candidate is unique.
\<close>

lemma outranks_less: "outranks idx i c c' \<longleftrightarrow> rank_key idx i c < rank_key idx i c'"
  by (auto simp: outranks_def rank_key_def less_prod_def less_eq_prod_def)

lemma rank_key_inj: "rank_key idx i c = rank_key idx i c' \<Longrightarrow> c = c'"
  by (simp add: rank_key_def)

lemma is_best_least:
  "is_best idx i c \<longleftrightarrow>
     c \<in> set (remaining idx i)
     \<and> (\<forall>c' \<in> set (remaining idx i). rank_key idx i c \<le> rank_key idx i c')"
proof
  assume b: "is_best idx i c"
  have "rank_key idx i c \<le> rank_key idx i c'" if "c' \<in> set (remaining idx i)" for c'
  proof (cases "c' = c")
    case True
    then show ?thesis by simp
  next
    case False
    with b that have "outranks idx i c c'" by (simp add: is_best_def)
    then show ?thesis by (simp add: outranks_less)
  qed
  with b show "c \<in> set (remaining idx i)
     \<and> (\<forall>c' \<in> set (remaining idx i). rank_key idx i c \<le> rank_key idx i c')"
    by (simp add: is_best_def)
next
  assume l: "c \<in> set (remaining idx i)
     \<and> (\<forall>c' \<in> set (remaining idx i). rank_key idx i c \<le> rank_key idx i c')"
  have "outranks idx i c c'" if "c' \<in> set (remaining idx i)" "c' \<noteq> c" for c'
  proof -
    from l that(1) have "rank_key idx i c \<le> rank_key idx i c'" by simp
    moreover from that(2) have "rank_key idx i c \<noteq> rank_key idx i c'"
      using rank_key_inj [of idx i c c'] by auto
    ultimately show ?thesis by (simp add: outranks_less)
  qed
  with l show "is_best idx i c" by (simp add: is_best_def)
qed

lemma is_best_unique: "is_best idx i c \<Longrightarrow> is_best idx i c' \<Longrightarrow> c = c'"
proof -
  assume "is_best idx i c" "is_best idx i c'"
  then have "rank_key idx i c \<le> rank_key idx i c'" "rank_key idx i c' \<le> rank_key idx i c"
    by (simp_all add: is_best_least)
  then show "c = c'" using rank_key_inj [of idx i c c'] by simp
qed

lemma best_ranks_by_spec: "ranks_by_spec best"
  unfolding ranks_by_spec_def
proof (intro allI)
  fix idx i c
  show "best idx i = Some c \<longleftrightarrow> is_best idx i c"
  proof (cases "remaining idx i")
    case Nil
    then show ?thesis by (simp add: best_def is_best_def)
  next
    case (Cons x xs)
    let ?m = "arg_min_list (rank_key idx i) (remaining idx i)"
    have ne: "remaining idx i \<noteq> []" using Cons by simp
    have b: "best idx i = Some ?m" using Cons by (simp add: best_def)
    have "?m \<in> set (remaining idx i)" by (rule arg_min_list_in [OF ne])
    moreover have "\<forall>c' \<in> set (remaining idx i). rank_key idx i ?m \<le> rank_key idx i c'"
      using f_arg_min_list_f [OF ne, of "rank_key idx i"] by simp
    ultimately have m: "is_best idx i ?m" by (simp add: is_best_least)
    show ?thesis using b m is_best_unique [of idx i c ?m] by auto
  qed
qed

lemma annotate_Inr:
  assumes "annotate maxDist reps threshold pfx hs = Inr r"
  shows "\<exists>idx. run_engine maxDist reps hs = Inr (idx, ann_paired r, ann_unpaired r)
           \<and> ann_elements r = fetch_elements pfx idx (ann_paired r)
           \<and> ann_leftover r = fetch_unpaired pfx idx (ann_unpaired r)
           \<and> ann_hits r = emit_hits threshold idx"
  using assms
  by (auto simp: annotate_def annotate_with_def run_engine_def split: sum.splits prod.splits)

lemma annotate_other_threshold:
  assumes "annotate maxDist reps threshold pfx hs = Inr r"
  shows "\<exists>r'. annotate maxDist reps m pfx hs = Inr r'
           \<and> ann_paired r' = ann_paired r \<and> ann_unpaired r' = ann_unpaired r
           \<and> ann_elements r' = ann_elements r \<and> ann_leftover r' = ann_leftover r"
  using assms
  by (auto simp: annotate_def annotate_with_def split: sum.splits prod.splits)

lemma set_emit_hits:
  "set (emit_hits threshold idx) = {i. i < length idx \<and> evalue (hit (idx ! i)) \<le> threshold}"
  by (auto simp: emit_hits_def)

lemma enumerate_covers:
  assumes "x \<in> set xs"
  shows "\<exists>k. (k, x) \<in> set (enumerate n xs)"
proof -
  from assms obtain i where i: "i < length xs" "xs ! i = x"
    by (auto simp: in_set_conv_nth)
  then have "(n + i, x) \<in> set (enumerate n xs)"
    by (simp add: in_set_enumerate_eq)
  then show ?thesis by blast
qed

lemma fetch_elements_covers:
  assumes "p \<in> set paired"
  shows "\<exists>k. pair_feature idx pfx k p \<in> set (fetch_elements pfx idx paired)"
proof -
  let ?key = "\<lambda>p. (chromosome (hit (idx ! five_prime p)), span_start p)"
  from assms have "p \<in> set (sort_key ?key paired)" by simp
  from enumerate_covers [OF this, of 1] obtain k where
    "(k, p) \<in> set (enumerate 1 (sort_key ?key paired))" by blast
  then have "pair_feature idx pfx k p \<in> set (fetch_elements pfx idx paired)"
    unfolding fetch_elements_def by force
  then show ?thesis by blast
qed

lemma length_fetch_elements: "length (fetch_elements pfx idx paired) = length paired"
  by (simp add: fetch_elements_def)

lemma engine_steps_of_run:
  assumes "\<not> nopairing a" and "useBowtie2 a \<or> tab_files w \<noteq> []"
  shows "filter is_engine_step (fst (main a w)) =
           [ParseHits (maxdist a), IterateGetPairs (stableReps a),
            WriteTIRs (outDir w) (maxeval a) (prefix a), FetchElements]"
proof -
  have c: "filter is_engine_step (check_tools a w) = []"
    by (simp add: check_tools_def)
  have s: "filter is_engine_step (fst (search_hits a w)) = []"
    by (auto simp: search_hits_def Let_def filter_empty_conv)
  have g: "filter is_engine_step (write_gff a w) = []"
    by (simp add: write_gff_def split: option.splits)
  have t: "filter is_engine_step (remove_temp a w) = []"
    by (simp add: remove_temp_def)
  show ?thesis
    using main_with_hits [OF assms(2)] assms(1) c s g t
    by (simp add: report_hits_def)
qed

text \<open>
  Claim C6. The threshold \<^verbatim>\<open>maxeval\<close> is a final filter and no input of the
  candidate search or the pairing. On the flow of the specification, configured as
  \<^verbatim>\<open>main\<close> configures it: the paired and unpaired sets are those of the engine run
  on the whole hit list; the hits whose records are emitted are exactly the hits with
  an e-value of at most the threshold; every pair has its element, with both hits as
  members and the span of the pair, whether or not its hits pass the threshold; and
  for every other value of the threshold the paired and unpaired sets and the features
  are the same. In \<^verbatim>\<open>main\<close> the calls come in this order: the candidate search
  with \<^verbatim>\<open>maxDist\<close>, the pairing with \<^verbatim>\<open>stableReps\<close>, then
  \<^verbatim>\<open>tirmite.writeTIRs\<close> with the threshold, then the derivation of the elements.
\<close>

theorem maxeval_final_filter:
  assumes "annotate (maxdist a) (nat (stableReps a)) (maxeval a) (prefix a) hs = Inr r"
  shows "(\<exists>idx. run_engine (maxdist a) (nat (stableReps a)) hs
                  = Inr (idx, ann_paired r, ann_unpaired r))
         \<and> set (ann_hits r) = {i. i < length hs \<and> evalue (hs ! i) \<le> maxeval a}
         \<and> (\<forall>p \<in> set (ann_paired r). \<exists>e \<in> set (ann_elements r).
               f_members e = [five_prime p, three_prime p]
               \<and> f_start e = span_start p \<and> f_end e = span_end p)
         \<and> length (ann_elements r) = length (ann_paired r)
         \<and> (\<forall>m. \<exists>r'. annotate (maxdist a) (nat (stableReps a)) m (prefix a) hs = Inr r'
               \<and> ann_paired r' = ann_paired r \<and> ann_unpaired r' = ann_unpaired r
               \<and> ann_elements r' = ann_elements r \<and> ann_leftover r' = ann_leftover r)
         \<and> (\<not> nopairing a \<and> (useBowtie2 a \<or> tab_files w \<noteq> []) \<longrightarrow>
               filter is_engine_step (fst (main a w)) =
                 [ParseHits (maxdist a), IterateGetPairs (stableReps a),
                  WriteTIRs (outDir w) (maxeval a) (prefix a), FetchElements])"
proof -
  from annotate_Inr [OF assms] obtain idx where
    run: "run_engine (maxdist a) (nat (stableReps a)) hs = Inr (idx, ann_paired r, ann_unpaired r)"
    and el: "ann_elements r = fetch_elements (prefix a) idx (ann_paired r)"
    and hi: "ann_hits r = emit_hits (maxeval a) idx"
    by blast
  from run have run': "run_engine_with best (maxdist a) (nat (stableReps a)) hs
                         = Inr (idx, ann_paired r, ann_unpaired r)"
    by (simp add: run_engine_def)
  have part: "\<exists>idx. run_engine (maxdist a) (nat (stableReps a)) hs
                  = Inr (idx, ann_paired r, ann_unpaired r)"
    using run by blast
  have emitted: "set (ann_hits r) = {i. i < length hs \<and> evalue (hs ! i) \<le> maxeval a}"
    using engine_frame(1) [OF run'] engine_frame(2) [OF run']
    by (auto simp: hi set_emit_hits)
  have anchors: "\<exists>e \<in> set (ann_elements r).
               f_members e = [five_prime p, three_prime p]
               \<and> f_start e = span_start p \<and> f_end e = span_end p"
    if "p \<in> set (ann_paired r)" for p
  proof -
    from fetch_elements_covers [OF that, of idx "prefix a"] obtain k where
      "pair_feature idx (prefix a) k p \<in> set (ann_elements r)" using el by auto
    then show ?thesis
      by (intro bexI [of _ "pair_feature idx (prefix a) k p"]) (simp_all add: pair_feature_def)
  qed
  have count: "length (ann_elements r) = length (ann_paired r)"
    by (simp add: el length_fetch_elements)
  have other: "\<exists>r'. annotate (maxdist a) (nat (stableReps a)) m (prefix a) hs = Inr r'
               \<and> ann_paired r' = ann_paired r \<and> ann_unpaired r' = ann_unpaired r
               \<and> ann_elements r' = ann_elements r \<and> ann_leftover r' = ann_leftover r" for m
    by (rule annotate_other_threshold [OF assms])
  have order: "filter is_engine_step (fst (main a w)) =
                 [ParseHits (maxdist a), IterateGetPairs (stableReps a),
                  WriteTIRs (outDir w) (maxeval a) (prefix a), FetchElements]"
    if "\<not> nopairing a" "useBowtie2 a \<or> tab_files w \<noteq> []"
    using engine_steps_of_run [OF that] .
  from part emitted anchors count other order show ?thesis by blast
qed

theorem maxeval_final_filter_witness:
  "annotate (Some 200) 0 (1 / 1000) None [hitA, hitB, hitC] = Inr abc_annotation
   \<and> five_prime (hd (ann_paired abc_annotation)) = 0
   \<and> three_prime (hd (ann_paired abc_annotation)) = 1
   \<and> \<not> evalue ([hitA, hitB, hitC] ! 1) \<le> 1 / 1000
   \<and> 1 \<notin> set (ann_hits abc_annotation)
   \<and> (\<exists>e \<in> set (ann_elements abc_annotation). f_members e = [0, 1])
   \<and> (\<exists>r'. annotate (Some 200) 0 1 None [hitA, hitB, hitC] = Inr r'
          \<and> ann_hits r' = [0, 1, 2]
          \<and> ann_paired r' = ann_paired abc_annotation
          \<and> ann_elements r' = ann_elements abc_annotation)
   \<and> filter is_engine_step (fst (main (default_args\<lparr>maxdist := Some 200\<rparr>) bare_world)) =
        [ParseHits (Some 200), IterateGetPairs 0, WriteTIRs ''out'' (1 / 1000) None, FetchElements]
   \<and> map_sum id (fst \<circ> snd)
        (run_engine (Some 200) 0 (filter (\<lambda>h. evalue h \<le> 1 / 1000) [hitA, hitB, hitC])) = Inr []"
proof -
  let ?a = "default_args\<lparr>maxdist := Some 200\<rparr>"
  let ?hs = "[hitA, hitB, hitC]"
  have cfg: "maxdist ?a = Some 200" "nat (stableReps ?a) = 0" "stableReps ?a = 0"
    "maxeval ?a = 1 / 1000" "prefix ?a = None" "\<not> nopairing ?a" "\<not> useBowtie2 ?a"
    by (simp_all add: default_args_def)
  have wld: "tab_files bare_world \<noteq> []" "outDir bare_world = ''out''"
    by (simp_all add: bare_world_def)
  have ann: "annotate (Some 200) 0 (1 / 1000) None ?hs = Inr abc_annotation"
    by code_simp
  then have ann': "annotate (maxdist ?a) (nat (stableReps ?a)) (maxeval ?a) (prefix ?a) ?hs
                     = Inr abc_annotation"
    by (simp add: cfg)
  note inst = maxeval_final_filter [OF ann', of bare_world]
  have p: "hd (ann_paired abc_annotation) \<in> set (ann_paired abc_annotation)"
    "five_prime (hd (ann_paired abc_annotation)) = 0"
    "three_prime (hd (ann_paired abc_annotation)) = 1"
    by (simp_all add: abc_annotation_def)
  from inst p have el: "\<exists>e \<in> set (ann_elements abc_annotation). f_members e = [0, 1]"
    by (metis (no_types, lifting))
  have low: "\<not> evalue (?hs ! 1) \<le> 1 / 1000" by (simp add: hitB_def)
  have out: "1 \<notin> set (ann_hits abc_annotation)" by (simp add: abc_annotation_def)
  from inst obtain r' where
    r': "annotate (maxdist ?a) (nat (stableReps ?a)) 1 (prefix ?a) ?hs = Inr r'"
        "ann_paired r' = ann_paired abc_annotation" "ann_elements r' = ann_elements abc_annotation"
    by blast
  have "map_sum id ann_hits (annotate (Some 200) 0 1 None ?hs) = Inr [0, 1, 2]"
    by code_simp
  with r'(1) have h': "ann_hits r' = [0, 1, 2]" by (simp add: cfg)
  from r' h' have oth: "\<exists>r'. annotate (Some 200) 0 1 None ?hs = Inr r'
          \<and> ann_hits r' = [0, 1, 2]
          \<and> ann_paired r' = ann_paired abc_annotation
          \<and> ann_elements r' = ann_elements abc_annotation"
    by (auto simp: cfg)
  from inst cfg(6,7) wld(1)
  have ord: "filter is_engine_step (fst (main ?a bare_world)) =
        [ParseHits (maxdist ?a), IterateGetPairs (stableReps ?a),
         WriteTIRs (outDir bare_world) (maxeval ?a) (prefix ?a), FetchElements]"
    by blast
  then have ord': "filter is_engine_step (fst (main ?a bare_world)) =
        [ParseHits (Some 200), IterateGetPairs 0, WriteTIRs ''out'' (1 / 1000) None, FetchElements]"
    by (simp add: cfg wld)
  have pre: "map_sum id (fst \<circ> snd)
        (run_engine (Some 200) 0 (filter (\<lambda>h. evalue h \<le> 1 / 1000) ?hs)) = Inr []"
    by code_simp
  from ann p(2,3) low out el oth ord' pre show ?thesis
    by blast
qed

end
